theory Spec2Isabelle
  imports Complex_Main
begin

section \<open>The resource allocation game of main.py\<close>

text \<open>
  Python numbers are modelled as exact reals: the float literals \<open>1.1\<close>, \<open>0.9\<close> and
  \<open>1.0\<close> are the rationals \<open>11/10\<close>, \<open>9/10\<close> and \<open>1\<close>, and no rounding, overflow or
  underflow takes place. Python's \<open>/\<close> raises \<open>ZeroDivisionError\<close> on a zero divisor and
  a subscript on a missing key raises \<open>KeyError\<close>; both are values of \<open>py_error\<close>.
\<close>

datatype py_error = ZeroDivisionError | KeyError

definition py_div :: "real \<Rightarrow> real \<Rightarrow> py_error + real" where
  "py_div a b = (if b = 0 then Inl ZeroDivisionError else Inr (a / b))"

subsection \<open>Dictionaries\<close>

text \<open>
  A \<open>dict\<close> is an association list in insertion order. Storing under a key that is
  present replaces the value where it stands, storing under a new key appends.
\<close>

type_synonym ('k, 'v) dict = "('k \<times> 'v) list"

fun dict_set :: "'k \<Rightarrow> 'v \<Rightarrow> ('k, 'v) dict \<Rightarrow> ('k, 'v) dict" where
  "dict_set k v [] = [(k, v)]"
| "dict_set k v ((k', v') # d) =
     (if k' = k then (k', v) # d else (k', v') # dict_set k v d)"

definition dict_get :: "('k, 'v) dict \<Rightarrow> 'k \<Rightarrow> py_error + 'v" where
  "dict_get d k = (case map_of d k of None \<Rightarrow> Inl KeyError | Some v \<Rightarrow> Inr v)"

definition dict_values :: "('k, 'v) dict \<Rightarrow> 'v list" where
  "dict_values d = map snd d"

definition dict_keys :: "('k, 'v) dict \<Rightarrow> 'k list" where
  "dict_keys d = map fst d"

subsection \<open>class Agent\<close>

record Agent =
  name :: string
  capability :: real
  resource_need :: real
  selfishness :: real
  payoff :: real
  resources_allocated :: real
  strategy :: real

definition Agent_init :: "string \<Rightarrow> real \<Rightarrow> real \<Rightarrow> real \<Rightarrow> Agent" where
  "Agent_init nm cap need selfish =
     \<lparr>name = nm, capability = cap, resource_need = need, selfishness = selfish,
      payoff = 0, resources_allocated = 0, strategy = 1\<rparr>"

text \<open>\<open>bid\<close> reads the agent and returns a number; it assigns to no field.\<close>

definition bid :: "Agent \<Rightarrow> real \<Rightarrow> real" where
  "bid self resource_pool =
     (let b = resource_need self * (1 + selfishness self * strategy self)
      in min b resource_pool)"

text \<open>\<open>update_strategy\<close> returns the mutated agent (the method itself returns \<open>None\<close>).\<close>

definition update_strategy :: "Agent \<Rightarrow> real \<Rightarrow> Agent" where
  "update_strategy self reward =
     (if reward > 0 then self\<lparr>strategy := strategy self * (11 / 10)\<rparr>
      else self\<lparr>strategy := strategy self * (9 / 10)\<rparr>)"

subsection \<open>class ResourcePool\<close>

record ResourcePool =
  total_resources :: real
  remaining_resources :: real

definition ResourcePool_init :: "real \<Rightarrow> ResourcePool" where
  "ResourcePool_init total_res =
     \<lparr>total_resources = total_res, remaining_resources = total_res\<rparr>"

definition replenish :: "ResourcePool \<Rightarrow> ResourcePool" where
  "replenish self = self\<lparr>remaining_resources := total_resources self\<rparr>"

text \<open>
  The comprehension of the shortfall branch, entry by entry: the first division by a zero
  \<open>total_bids\<close> raises.
\<close>

fun ration :: "('k, real) dict \<Rightarrow> real \<Rightarrow> real \<Rightarrow> py_error + ('k, real) dict" where
  "ration [] total_bids remaining = Inr []"
| "ration ((agent, b) # bids) total_bids remaining =
     (case py_div b total_bids of
        Inl e \<Rightarrow> Inl e
      | Inr q \<Rightarrow>
          (case ration bids total_bids remaining of
             Inl e \<Rightarrow> Inl e
           | Inr allocation \<Rightarrow> Inr ((agent, q * remaining) # allocation)))"

text \<open>\<open>allocate\<close> returns the allocation together with the mutated pool.\<close>

definition allocate ::
  "ResourcePool \<Rightarrow> ('k, real) dict \<Rightarrow> py_error + (('k, real) dict \<times> ResourcePool)" where
  "allocate self bids =
     (let total_bids = sum_list (dict_values bids) in
      case (if total_bids \<le> remaining_resources self then Inr bids
            else ration bids total_bids (remaining_resources self)) of
        Inl e \<Rightarrow> Inl e
      | Inr allocation \<Rightarrow>
          Inr (allocation,
               self\<lparr>remaining_resources :=
                      remaining_resources self - sum_list (dict_values allocation)\<rparr>))"

subsection \<open>compute_shapley_value\<close>

text \<open>
  The division stands behind the test \<open>total_contribution > 0\<close> of the conditional
  expression, so its divisor is never zero.
\<close>

definition compute_shapley_value :: "('k, real) dict \<Rightarrow> real \<Rightarrow> ('k, real) dict" where
  "compute_shapley_value contributions total_contribution =
     map (\<lambda>(agent, contribution).
            (agent, if total_contribution > 0 then contribution / total_contribution else 0))
         contributions"

subsection \<open>resource_allocation_game\<close>

text \<open>
  Agents are objects: the game holds references to them, mutates them in place and uses
  them as dictionary keys by identity. A reference is a number, and the heap gives the
  object behind each reference. The list \<open>agents\<close> passed to the game is a list of
  references, in which the same object may stand more than once and in which different
  objects may carry the same name.
\<close>

type_synonym ref = nat

type_synonym heap = "ref \<Rightarrow> Agent"

text \<open>
  Two fields of the game state are not variables of the program but records of its run:
  \<open>g_calls\<close> lists the method and function calls the loop body has made, in order, and
  \<open>g_log\<close> keeps the local variables of every completed round.
\<close>

datatype call =
  Call_replenish
  | Call_bid ref
  | Call_allocate
  | Call_compute_shapley_value
  | Call_update_strategy ref

record round_report =
  r_bids :: "(ref, real) dict"
  r_allocation :: "(ref, real) dict"
  r_contributions :: "(ref, real) dict"
  r_total_contribution :: real
  r_shapley_values :: "(ref, real) dict"
  r_rewards :: "(ref, real) dict"

record game_state =
  g_heap :: heap
  g_pool :: ResourcePool
  payoff_history :: "(string, real list) dict"
  allocation_history :: "(string, real list) dict"
  g_calls :: "call list"
  g_log :: "round_report list"

text \<open>\<open>{agent.name: [] for agent in agents}\<close>\<close>

definition history_init :: "ref list \<Rightarrow> heap \<Rightarrow> (string, real list) dict" where
  "history_init agents h = foldl (\<lambda>d agent. dict_set (name (h agent)) [] d) [] agents"

text \<open>\<open>{agent: agent.bid(resource_pool.remaining_resources) for agent in agents}\<close>\<close>

definition round_bids :: "ref list \<Rightarrow> heap \<Rightarrow> real \<Rightarrow> (ref, real) dict" where
  "round_bids agents h remaining =
     foldl (\<lambda>d agent. dict_set agent (bid (h agent) remaining) d) [] agents"

text \<open>The loop over \<open>allocation.items()\<close> that fills \<open>contributions\<close>.\<close>

fun contribute :: "(ref, real) dict \<Rightarrow> heap \<Rightarrow> (ref, real) dict \<Rightarrow> heap \<times> (ref, real) dict" where
  "contribute [] h contributions = (h, contributions)"
| "contribute ((agent, allocated) # rest) h contributions =
     (let h' = h(agent := (h agent)
                   \<lparr>resources_allocated := resources_allocated (h agent) + allocated\<rparr>)
      in contribute rest h' (dict_set agent (capability (h' agent) * allocated) contributions))"

text \<open>
  The loop over \<open>shapley_values.items()\<close>. Its state is the heap, the two histories and
  the rewards computed so far; \<open>total_res\<close> is \<open>resource_pool.total_resources\<close>.
\<close>

fun reward_loop ::
  "(ref, real) dict \<Rightarrow> (ref, real) dict \<Rightarrow> real \<Rightarrow>
   heap \<times> (string, real list) dict \<times> (string, real list) dict \<times> (ref, real) dict \<Rightarrow>
   py_error + (heap \<times> (string, real list) dict \<times> (string, real list) dict \<times> (ref, real) dict)"
  where
  "reward_loop [] allocation total_res st = Inr st"
| "reward_loop ((agent, shapley_value) # rest) allocation total_res (h, ph, ah, rewards) =
     (let reward = shapley_value * total_res;
          h' = h(agent := update_strategy
                            ((h agent)\<lparr>payoff := payoff (h agent) + reward\<rparr>) reward)
      in case dict_get ph (name (h' agent)) of
           Inl e \<Rightarrow> Inl e
         | Inr payoffs \<Rightarrow>
             (case dict_get ah (name (h' agent)) of
                Inl e \<Rightarrow> Inl e
              | Inr allocations \<Rightarrow>
                  (case dict_get allocation agent of
                     Inl e \<Rightarrow> Inl e
                   | Inr allocated \<Rightarrow>
                       reward_loop rest allocation total_res
                         (h',
                          dict_set (name (h' agent)) (payoffs @ [payoff (h' agent)]) ph,
                          dict_set (name (h' agent)) (allocations @ [allocated]) ah,
                          rewards @ [(agent, reward)]))))"

text \<open>The closing loop that prints a line per agent reads \<open>allocation[agent]\<close>.\<close>

fun print_loop :: "ref list \<Rightarrow> (ref, real) dict \<Rightarrow> py_error + unit" where
  "print_loop [] allocation = Inr ()"
| "print_loop (agent # rest) allocation =
     (case dict_get allocation agent of
        Inl e \<Rightarrow> Inl e
      | Inr allocated \<Rightarrow> print_loop rest allocation)"

definition round_calls :: "ref list \<Rightarrow> (ref, real) dict \<Rightarrow> call list" where
  "round_calls agents shapley_values =
     Call_replenish # map Call_bid agents
       @ [Call_allocate, Call_compute_shapley_value]
       @ map Call_update_strategy (dict_keys shapley_values)"

text \<open>One pass through the body of \<open>for round_no in range(rounds)\<close>.\<close>

definition play_round :: "ref list \<Rightarrow> game_state \<Rightarrow> py_error + game_state" where
  "play_round agents s =
     (let resource_pool = replenish (g_pool s);
          bids = round_bids agents (g_heap s) (remaining_resources resource_pool)
      in case allocate resource_pool bids of
           Inl e \<Rightarrow> Inl e
         | Inr (allocation, resource_pool') \<Rightarrow>
             (let (h, contributions) = contribute allocation (g_heap s) [];
                  total_contribution = sum_list (dict_values contributions);
                  shapley_values = compute_shapley_value contributions total_contribution
              in case reward_loop shapley_values allocation (total_resources resource_pool')
                        (h, payoff_history s, allocation_history s, []) of
                   Inl e \<Rightarrow> Inl e
                 | Inr (h', ph, ah, rewards) \<Rightarrow>
                     (case print_loop agents allocation of
                        Inl e \<Rightarrow> Inl e
                      | Inr u \<Rightarrow>
                          Inr \<lparr>g_heap = h', g_pool = resource_pool',
                               payoff_history = ph, allocation_history = ah,
                               g_calls = g_calls s @ round_calls agents shapley_values,
                               g_log = g_log s @
                                 [\<lparr>r_bids = bids, r_allocation = allocation,
                                   r_contributions = contributions,
                                   r_total_contribution = total_contribution,
                                   r_shapley_values = shapley_values,
                                   r_rewards = rewards\<rparr>]\<rparr>)))"

fun rounds_loop :: "nat \<Rightarrow> ref list \<Rightarrow> game_state \<Rightarrow> py_error + game_state" where
  "rounds_loop 0 agents s = Inr s"
| "rounds_loop (Suc n) agents s =
     (case play_round agents s of
        Inl e \<Rightarrow> Inl e
      | Inr s' \<Rightarrow> rounds_loop n agents s')"

definition game_init :: "ref list \<Rightarrow> heap \<Rightarrow> ResourcePool \<Rightarrow> game_state" where
  "game_init agents h resource_pool =
     \<lparr>g_heap = h, g_pool = resource_pool,
      payoff_history = history_init agents h,
      allocation_history = history_init agents h,
      g_calls = [], g_log = []\<rparr>"

text \<open>
  \<open>range(rounds)\<close> is empty for a negative \<open>rounds\<close>. The function returns the two
  histories; the model returns the whole final state, of which they are two fields.
\<close>

definition resource_allocation_game ::
  "ref list \<Rightarrow> heap \<Rightarrow> ResourcePool \<Rightarrow> int \<Rightarrow> py_error + game_state" where
  "resource_allocation_game agents h resource_pool rounds =
     rounds_loop (nat rounds) agents (game_init agents h resource_pool)"

subsection \<open>Main execution\<close>

text \<open>
  The three agents built under \<open>if __name__ == "__main__"\<close>, at the references 0, 1
  and 2 (every further reference holds a copy of the third); the list passed to the game
  is \<open>[0, 1, 2]\<close> and the pool is \<open>ResourcePool_init 30\<close>.
\<close>

definition main_heap :: heap where
  "main_heap =
     (\<lambda>r. if r = 0 then Agent_init ''Agent A'' 5 10 (1 / 2)
          else if r = 1 then Agent_init ''Agent B'' 8 8 (3 / 10)
          else Agent_init ''Agent C'' 4 12 (7 / 10))"

section \<open>The program in double precision\<close>

text \<open>
  The definitions above compute over exact reals. The program itself computes in IEEE 754
  binary64: this section embeds the same code over that arithmetic, so that what overflow
  and NaN do to it can be stated. A finite double is \<open>Finite x\<close> for a real \<open>x\<close> of the
  format; the two zeros are one value, as the program only adds, multiplies, compares
  and divides, and Python's division raises on either zero. Integers among the inputs
  (\<open>payoff = 0\<close>, the \<open>1\<close> in \<open>bid\<close>, the start value of \<open>sum\<close>) are the doubles they
  convert to. \<open>sum\<close> adds from left to right.
\<close>

datatype double = Finite real | PInf | NInf | NaN

fun bit_length :: "nat \<Rightarrow> nat" where
  "bit_length n = (if n = 0 then 0 else Suc (bit_length (n div 2)))"

declare bit_length.simps [simp del]

text \<open>The binary exponent \<open>\<lfloor>log\<^sub>2 \<bar>x\<bar>\<rfloor>\<close> of a non-zero real.\<close>

definition exponent_of :: "real \<Rightarrow> int" where
  "exponent_of x =
     (if 1 \<le> \<bar>x\<bar> then int (bit_length (nat \<lfloor>\<bar>x\<bar>\<rfloor>)) - 1
      else - int (bit_length (nat (\<lceil>1 / \<bar>x\<bar>\<rceil> - 1))))"

definition scale :: "real \<Rightarrow> int \<Rightarrow> real" where
  "scale x t = (if 0 \<le> t then x * 2 ^ nat t else x / 2 ^ nat (- t))"

definition round_half_even :: "real \<Rightarrow> int" where
  "round_half_even y =
     (let n = \<lfloor>y\<rfloor>; r = y - of_int n
      in if r < 1 / 2 then n else if 1 / 2 < r then n + 1
         else if even n then n else n + 1)"

text \<open>
  Round to nearest, ties to even: 53 bits of precision, the smallest unit \<open>2\<^sup>-\<^sup>1\<^sup>0\<^sup>7\<^sup>4\<close>,
  and infinity from \<open>2\<^sup>1\<^sup>0\<^sup>2\<^sup>4 - 2\<^sup>9\<^sup>7\<^sup>0\<close> on.
\<close>

definition round_double :: "real \<Rightarrow> double" where
  "round_double x =
     (if x = 0 then Finite 0
      else if 2 ^ 1024 - 2 ^ 970 \<le> x then PInf
      else if x \<le> - (2 ^ 1024 - 2 ^ 970) then NInf
      else let t = max (exponent_of x - 52) (- 1074)
           in Finite (scale (of_int (round_half_even (scale x (- t)))) t))"

fun fadd :: "double \<Rightarrow> double \<Rightarrow> double" where
  "fadd (Finite x) (Finite y) = round_double (x + y)"
| "fadd NaN b = NaN"
| "fadd a NaN = NaN"
| "fadd PInf NInf = NaN"
| "fadd NInf PInf = NaN"
| "fadd PInf b = PInf"
| "fadd NInf b = NInf"
| "fadd (Finite x) b = b"

fun fneg :: "double \<Rightarrow> double" where
  "fneg (Finite x) = Finite (- x)"
| "fneg PInf = NInf"
| "fneg NInf = PInf"
| "fneg NaN = NaN"

definition fsub :: "double \<Rightarrow> double \<Rightarrow> double" where
  "fsub a b = fadd a (fneg b)"

text \<open>The sign of a double that is not NaN: -1, 0 or 1.\<close>

fun fsgn :: "double \<Rightarrow> int" where
  "fsgn (Finite x) = (if x < 0 then - 1 else if x = 0 then 0 else 1)"
| "fsgn PInf = 1"
| "fsgn NInf = - 1"
| "fsgn NaN = 0"

definition signed_inf :: "int \<Rightarrow> double" where
  "signed_inf s = (if s = 0 then NaN else if 0 < s then PInf else NInf)"

fun fmul :: "double \<Rightarrow> double \<Rightarrow> double" where
  "fmul (Finite x) (Finite y) = round_double (x * y)"
| "fmul NaN b = NaN"
| "fmul a NaN = NaN"
| "fmul a b = signed_inf (fsgn a * fsgn b)"

text \<open>The quotient for a divisor that is not zero.\<close>

fun fquot :: "double \<Rightarrow> double \<Rightarrow> double" where
  "fquot (Finite x) (Finite y) = round_double (x / y)"
| "fquot NaN b = NaN"
| "fquot a NaN = NaN"
| "fquot (Finite x) b = Finite 0"
| "fquot a (Finite y) = signed_inf (fsgn a * fsgn (Finite y))"
| "fquot a b = NaN"

text \<open>Python's \<open>/\<close> on floats raises on a zero divisor, whatever the dividend.\<close>

definition py_fdiv :: "double \<Rightarrow> double \<Rightarrow> py_error + double" where
  "py_fdiv a b = (if b = Finite 0 then Inl ZeroDivisionError else Inr (fquot a b))"

fun flt :: "double \<Rightarrow> double \<Rightarrow> bool" where
  "flt (Finite x) (Finite y) = (x < y)"
| "flt NaN b = False"
| "flt a NaN = False"
| "flt a NInf = False"
| "flt PInf b = False"
| "flt a b = True"

fun fle :: "double \<Rightarrow> double \<Rightarrow> bool" where
  "fle (Finite x) (Finite y) = (x \<le> y)"
| "fle NaN b = False"
| "fle a NaN = False"
| "fle NInf b = True"
| "fle a PInf = True"
| "fle a b = False"

text \<open>\<open>min(a, b)\<close> keeps \<open>a\<close> unless \<open>b < a\<close>.\<close>

definition py_min :: "double \<Rightarrow> double \<Rightarrow> double" where
  "py_min a b = (if flt b a then b else a)"

definition py_sum :: "double list \<Rightarrow> double" where
  "py_sum xs = foldl fadd (Finite 0) xs"

subsection \<open>Agent and ResourcePool in double precision\<close>

record Agent_f64 =
  name_f64 :: string
  capability_f64 :: double
  resource_need_f64 :: double
  selfishness_f64 :: double
  payoff_f64 :: double
  resources_allocated_f64 :: double
  strategy_f64 :: double

definition Agent_init_f64 :: "string \<Rightarrow> double \<Rightarrow> double \<Rightarrow> double \<Rightarrow> Agent_f64" where
  "Agent_init_f64 nm cap need selfish =
     \<lparr>name_f64 = nm, capability_f64 = cap, resource_need_f64 = need,
      selfishness_f64 = selfish, payoff_f64 = Finite 0,
      resources_allocated_f64 = Finite 0, strategy_f64 = Finite 1\<rparr>"

definition bid_f64 :: "Agent_f64 \<Rightarrow> double \<Rightarrow> double" where
  "bid_f64 self resource_pool =
     (let b = fmul (resource_need_f64 self)
                (fadd (Finite 1) (fmul (selfishness_f64 self) (strategy_f64 self)))
      in py_min b resource_pool)"

definition update_strategy_f64 :: "Agent_f64 \<Rightarrow> double \<Rightarrow> Agent_f64" where
  "update_strategy_f64 self reward =
     (if flt (Finite 0) reward
      then self\<lparr>strategy_f64 := fmul (strategy_f64 self) (round_double (11 / 10))\<rparr>
      else self\<lparr>strategy_f64 := fmul (strategy_f64 self) (round_double (9 / 10))\<rparr>)"

record ResourcePool_f64 =
  total_resources_f64 :: double
  remaining_resources_f64 :: double

definition ResourcePool_init_f64 :: "double \<Rightarrow> ResourcePool_f64" where
  "ResourcePool_init_f64 total_res =
     \<lparr>total_resources_f64 = total_res, remaining_resources_f64 = total_res\<rparr>"

definition replenish_f64 :: "ResourcePool_f64 \<Rightarrow> ResourcePool_f64" where
  "replenish_f64 self = self\<lparr>remaining_resources_f64 := total_resources_f64 self\<rparr>"

fun ration_f64 :: "('k, double) dict \<Rightarrow> double \<Rightarrow> double \<Rightarrow> py_error + ('k, double) dict" where
  "ration_f64 [] total_bids remaining = Inr []"
| "ration_f64 ((agent, b) # bids) total_bids remaining =
     (case py_fdiv b total_bids of
        Inl e \<Rightarrow> Inl e
      | Inr q \<Rightarrow>
          (case ration_f64 bids total_bids remaining of
             Inl e \<Rightarrow> Inl e
           | Inr allocation \<Rightarrow> Inr ((agent, fmul q remaining) # allocation)))"

definition allocate_f64 ::
  "ResourcePool_f64 \<Rightarrow> ('k, double) dict \<Rightarrow>
   py_error + (('k, double) dict \<times> ResourcePool_f64)" where
  "allocate_f64 self bids =
     (let total_bids = py_sum (dict_values bids) in
      case (if fle total_bids (remaining_resources_f64 self) then Inr bids
            else ration_f64 bids total_bids (remaining_resources_f64 self)) of
        Inl e \<Rightarrow> Inl e
      | Inr allocation \<Rightarrow>
          Inr (allocation,
               self\<lparr>remaining_resources_f64 :=
                      fsub (remaining_resources_f64 self)
                        (py_sum (dict_values allocation))\<rparr>))"

text \<open>As before the division stands behind the test \<open>total_contribution > 0\<close>.\<close>

definition compute_shapley_value_f64 :: "('k, double) dict \<Rightarrow> double \<Rightarrow> ('k, double) dict" where
  "compute_shapley_value_f64 contributions total_contribution =
     map (\<lambda>(agent, contribution).
            (agent, if flt (Finite 0) total_contribution
                    then fquot contribution total_contribution else Finite 0))
         contributions"

subsection \<open>The game in double precision\<close>

type_synonym heap_f64 = "ref \<Rightarrow> Agent_f64"

text \<open>\<open>g_rewards_f64\<close> records the rewards of the run, in order; it is no program variable.\<close>

record game_state_f64 =
  g_heap_f64 :: heap_f64
  g_pool_f64 :: ResourcePool_f64
  payoff_history_f64 :: "(string, double list) dict"
  allocation_history_f64 :: "(string, double list) dict"
  g_rewards_f64 :: "(ref, double) dict"

definition history_init_f64 :: "ref list \<Rightarrow> heap_f64 \<Rightarrow> (string, double list) dict" where
  "history_init_f64 agents h =
     foldl (\<lambda>d agent. dict_set (name_f64 (h agent)) [] d) [] agents"

definition round_bids_f64 :: "ref list \<Rightarrow> heap_f64 \<Rightarrow> double \<Rightarrow> (ref, double) dict" where
  "round_bids_f64 agents h remaining =
     foldl (\<lambda>d agent. dict_set agent (bid_f64 (h agent) remaining) d) [] agents"

fun contribute_f64 ::
  "(ref, double) dict \<Rightarrow> heap_f64 \<Rightarrow> (ref, double) dict \<Rightarrow> heap_f64 \<times> (ref, double) dict" where
  "contribute_f64 [] h contributions = (h, contributions)"
| "contribute_f64 ((agent, allocated) # rest) h contributions =
     (let h' = h(agent := (h agent)
                   \<lparr>resources_allocated_f64 :=
                      fadd (resources_allocated_f64 (h agent)) allocated\<rparr>)
      in contribute_f64 rest h'
           (dict_set agent (fmul (capability_f64 (h' agent)) allocated) contributions))"

fun reward_loop_f64 ::
  "(ref, double) dict \<Rightarrow> (ref, double) dict \<Rightarrow> double \<Rightarrow>
   heap_f64 \<times> (string, double list) dict \<times> (string, double list) dict \<times> (ref, double) dict \<Rightarrow>
   py_error +
     (heap_f64 \<times> (string, double list) dict \<times> (string, double list) dict \<times> (ref, double) dict)"
  where
  "reward_loop_f64 [] allocation total_res st = Inr st"
| "reward_loop_f64 ((agent, shapley_value) # rest) allocation total_res (h, ph, ah, rewards) =
     (let reward = fmul shapley_value total_res;
          h' = h(agent := update_strategy_f64
                            ((h agent)\<lparr>payoff_f64 := fadd (payoff_f64 (h agent)) reward\<rparr>)
                            reward)
      in case dict_get ph (name_f64 (h' agent)) of
           Inl e \<Rightarrow> Inl e
         | Inr payoffs \<Rightarrow>
             (case dict_get ah (name_f64 (h' agent)) of
                Inl e \<Rightarrow> Inl e
              | Inr allocations \<Rightarrow>
                  (case dict_get allocation agent of
                     Inl e \<Rightarrow> Inl e
                   | Inr allocated \<Rightarrow>
                       reward_loop_f64 rest allocation total_res
                         (h',
                          dict_set (name_f64 (h' agent))
                            (payoffs @ [payoff_f64 (h' agent)]) ph,
                          dict_set (name_f64 (h' agent)) (allocations @ [allocated]) ah,
                          rewards @ [(agent, reward)]))))"

fun print_loop_f64 :: "ref list \<Rightarrow> (ref, double) dict \<Rightarrow> py_error + unit" where
  "print_loop_f64 [] allocation = Inr ()"
| "print_loop_f64 (agent # rest) allocation =
     (case dict_get allocation agent of
        Inl e \<Rightarrow> Inl e
      | Inr allocated \<Rightarrow> print_loop_f64 rest allocation)"

definition play_round_f64 :: "ref list \<Rightarrow> game_state_f64 \<Rightarrow> py_error + game_state_f64" where
  "play_round_f64 agents s =
     (let resource_pool = replenish_f64 (g_pool_f64 s);
          bids = round_bids_f64 agents (g_heap_f64 s) (remaining_resources_f64 resource_pool)
      in case allocate_f64 resource_pool bids of
           Inl e \<Rightarrow> Inl e
         | Inr (allocation, resource_pool') \<Rightarrow>
             (let (h, contributions) = contribute_f64 allocation (g_heap_f64 s) [];
                  total_contribution = py_sum (dict_values contributions);
                  shapley_values = compute_shapley_value_f64 contributions total_contribution
              in case reward_loop_f64 shapley_values allocation
                        (total_resources_f64 resource_pool')
                        (h, payoff_history_f64 s, allocation_history_f64 s,
                         g_rewards_f64 s) of
                   Inl e \<Rightarrow> Inl e
                 | Inr (h', ph, ah, rewards) \<Rightarrow>
                     (case print_loop_f64 agents allocation of
                        Inl e \<Rightarrow> Inl e
                      | Inr u \<Rightarrow>
                          Inr \<lparr>g_heap_f64 = h', g_pool_f64 = resource_pool',
                               payoff_history_f64 = ph, allocation_history_f64 = ah,
                               g_rewards_f64 = rewards\<rparr>)))"

fun rounds_loop_f64 :: "nat \<Rightarrow> ref list \<Rightarrow> game_state_f64 \<Rightarrow> py_error + game_state_f64" where
  "rounds_loop_f64 0 agents s = Inr s"
| "rounds_loop_f64 (Suc n) agents s =
     (case play_round_f64 agents s of
        Inl e \<Rightarrow> Inl e
      | Inr s' \<Rightarrow> rounds_loop_f64 n agents s')"

definition resource_allocation_game_f64 ::
  "ref list \<Rightarrow> heap_f64 \<Rightarrow> ResourcePool_f64 \<Rightarrow> int \<Rightarrow> py_error + game_state_f64" where
  "resource_allocation_game_f64 agents h resource_pool rounds =
     rounds_loop_f64 (nat rounds) agents
       \<lparr>g_heap_f64 = h, g_pool_f64 = resource_pool,
        payoff_history_f64 = history_init_f64 agents h,
        allocation_history_f64 = history_init_f64 agents h,
        g_rewards_f64 = []\<rparr>"

text \<open>The agents of the main execution as doubles.\<close>

definition main_heap_f64 :: heap_f64 where
  "main_heap_f64 =
     (\<lambda>r. if r = 0 then Agent_init_f64 ''Agent A'' (Finite 5) (Finite 10) (round_double (1 / 2))
          else if r = 1
          then Agent_init_f64 ''Agent B'' (Finite 8) (Finite 8) (round_double (3 / 10))
          else Agent_init_f64 ''Agent C'' (Finite 4) (Finite 12) (round_double (7 / 10)))"

section \<open>Facts about dictionaries and sums\<close>

lemma ration_eq:
  "ration bids total_bids remaining =
     (if total_bids = 0 \<and> bids \<noteq> [] then Inl ZeroDivisionError
      else Inr (map (\<lambda>(agent, b). (agent, b / total_bids * remaining)) bids))"
  by (induction bids total_bids remaining rule: ration.induct) (auto simp: py_div_def)

lemma sum_rationed:
  fixes t r :: real
  shows "sum_list (dict_values (map (\<lambda>(agent, b). (agent, b / t * r)) bids)) =
     sum_list (dict_values bids) / t * r"
  by (induction bids) (simp_all add: dict_values_def split_beta add_divide_distrib distrib_right)

lemma sum_rationed_normal:
  fixes t r :: real
  shows "sum_list (dict_values (map (\<lambda>(agent, b). (agent, b * r / t)) bids)) =
     sum_list (dict_values bids) * r / t"
  using sum_rationed [of t r bids] by simp

lemma sum_list_real_nonneg:
  fixes xs :: "real list"
  shows "\<forall>x \<in> set xs. 0 \<le> x \<Longrightarrow> 0 \<le> sum_list xs"
  by (induction xs) auto

lemma member_le_sum_list_real:
  fixes xs :: "real list"
  shows "\<forall>x \<in> set xs. 0 \<le> x \<Longrightarrow> y \<in> set xs \<Longrightarrow> y \<le> sum_list xs"
proof (induction xs)
  case Nil
  then show ?case by simp
next
  case (Cons x xs)
  have rest: "0 \<le> sum_list xs"
    using Cons.prems(1) by (simp add: sum_list_real_nonneg)
  show ?case
  proof (cases "y = x")
    case True
    then show ?thesis using rest by simp
  next
    case False
    then have "y \<le> sum_list xs"
      using Cons by simp
    then show ?thesis using Cons.prems(1) by simp
  qed
qed

lemma sum_shares:
  fixes t :: real
  shows "sum_list (dict_values (map (\<lambda>(agent, c). (agent, c / t)) cs)) =
     sum_list (dict_values cs) / t"
  by (induction cs) (simp_all add: dict_values_def split_beta add_divide_distrib)

lemma dict_keys_Cons: "dict_keys ((k, v) # d) = k # dict_keys d"
  by (simp add: dict_keys_def)

lemma dict_keys_dict_set:
  "dict_keys (dict_set k v d) =
     (if k \<in> set (dict_keys d) then dict_keys d else dict_keys d @ [k])"
proof (induction d)
  case Nil
  then show ?case by (simp add: dict_keys_def)
next
  case (Cons p d)
  obtain k' v' where p: "p = (k', v')" by (cases p)
  show ?case
    using Cons.IH by (simp add: p dict_keys_Cons)
qed

lemma set_dict_keys_dict_set:
  "set (dict_keys (dict_set k v d)) = insert k (set (dict_keys d))"
  by (auto simp: dict_keys_dict_set)

lemma distinct_dict_set:
  "distinct (dict_keys d) \<Longrightarrow> distinct (dict_keys (dict_set k v d))"
  by (simp add: dict_keys_dict_set)

lemma dict_set_new:
  "k \<notin> set (dict_keys d) \<Longrightarrow> dict_set k v d = d @ [(k, v)]"
proof (induction d)
  case Nil
  then show ?case by simp
next
  case (Cons p d)
  obtain k' v' where p: "p = (k', v')" by (cases p)
  show ?case
    using Cons by (auto simp: p dict_keys_Cons)
qed

lemma map_of_dict_set:
  "map_of (dict_set k v d) = (map_of d)(k \<mapsto> v)"
  by (induction d) (auto simp: fun_eq_iff)

lemma dict_get_present:
  "k \<in> set (dict_keys d) \<Longrightarrow> \<exists>v. dict_get d k = Inr v"
proof -
  assume "k \<in> set (dict_keys d)"
  then have "map_of d k \<noteq> None"
    by (simp add: dict_keys_def map_of_eq_None_iff)
  then show ?thesis
    by (auto simp: dict_get_def split: option.splits)
qed

lemma dict_get_Inr_iff:
  "dict_get d k = Inr v \<longleftrightarrow> map_of d k = Some v"
  by (simp add: dict_get_def split: option.splits)

subsection \<open>Dictionary comprehensions\<close>

lemma comprehension_keys:
  "set (dict_keys (foldl (\<lambda>d a. dict_set (key a) (f a) d) d0 xs)) =
     set (dict_keys d0) \<union> key ` set xs"
  by (induction xs arbitrary: d0) (auto simp: set_dict_keys_dict_set)

lemma comprehension_distinct:
  "distinct (dict_keys d0) \<Longrightarrow>
     distinct (dict_keys (foldl (\<lambda>d a. dict_set (key a) (f a) d) d0 xs))"
  by (induction xs arbitrary: d0) (auto simp: distinct_dict_set)

lemma dict_set_entries:
  "(a, b) \<in> set (dict_set k v d) \<Longrightarrow> (a, b) \<in> set d \<or> (a = k \<and> b = v)"
  by (induction d) (auto split: if_splits)

lemma comprehension_values:
  "\<forall>(a, b) \<in> set d0. b = g a \<Longrightarrow>
     \<forall>(a, b) \<in> set (foldl (\<lambda>d a. dict_set a (g a) d) d0 xs). b = g a"
proof (induction xs arbitrary: d0)
  case Nil
  then show ?case by simp
next
  case (Cons x xs)
  have "\<forall>(a, b) \<in> set (dict_set x (g x) d0). b = g a"
    using Cons.prems dict_set_entries [of _ _ x "g x" d0] by blast
  then show ?case
    using Cons.IH by simp
qed

lemma round_bids_keys: "set (dict_keys (round_bids agents h r)) = set agents"
  using comprehension_keys [of "\<lambda>a. a" "\<lambda>a. bid (h a) r" "[]" agents]
  by (simp add: round_bids_def dict_keys_def)

lemma round_bids_distinct: "distinct (dict_keys (round_bids agents h r))"
  using comprehension_distinct [of "[]" "\<lambda>a. a" "\<lambda>a. bid (h a) r" agents]
  by (simp add: round_bids_def dict_keys_def)

lemma round_bids_values: "(a, b) \<in> set (round_bids agents h r) \<Longrightarrow> b = bid (h a) r"
  using comprehension_values [of "[]" "\<lambda>a. bid (h a) r" agents]
  by (auto simp: round_bids_def)

lemma history_init_keys:
  "set (dict_keys (history_init agents h)) = (\<lambda>a. name (h a)) ` set agents"
  using comprehension_keys [of "\<lambda>a. name (h a)" "\<lambda>a. []" "[]" agents]
  by (simp add: history_init_def dict_keys_def)


subsection \<open>allocate\<close>

lemma allocate_eq:
  "allocate pool bids =
     (if sum_list (dict_values bids) \<le> remaining_resources pool
      then Inr (bids, pool\<lparr>remaining_resources :=
                  remaining_resources pool - sum_list (dict_values bids)\<rparr>)
      else if sum_list (dict_values bids) = 0 \<and> bids \<noteq> [] then Inl ZeroDivisionError
      else Inr (map (\<lambda>(agent, b).
                  (agent, b / sum_list (dict_values bids) * remaining_resources pool)) bids,
                pool\<lparr>remaining_resources := remaining_resources pool -
                  sum_list (dict_values bids) / sum_list (dict_values bids)
                    * remaining_resources pool\<rparr>))"
  unfolding allocate_def Let_def ration_eq
  by (simp only: sum_rationed sum.case if_distrib [of "case_sum Inl _"] split: if_splits)

lemma sum_list_le_bound:
  fixes xs :: "real list"
  shows "xs \<noteq> [] \<Longrightarrow> \<forall>x \<in> set xs. x \<le> t \<Longrightarrow> t \<le> 0 \<Longrightarrow> sum_list xs \<le> t"
proof (induction xs)
  case Nil
  then show ?case by simp
next
  case (Cons x xs)
  show ?case
  proof (cases "xs = []")
    case True
    then show ?thesis using Cons.prems by simp
  next
    case False
    then have "sum_list xs \<le> t"
      using Cons by simp
    moreover have "x \<le> t"
      using Cons.prems by simp
    ultimately show ?thesis
      using Cons.prems(3) by simp
  qed
qed

lemma dict_keys_map_values:
  "dict_keys (map (\<lambda>(agent, b). (agent, f agent b)) d) = dict_keys d"
  by (induction d) (auto simp: dict_keys_def)

lemma allocate_capped:
  assumes "\<forall>(agent, b) \<in> set bids. b \<le> total_resources pool"
  shows "\<exists>al p. allocate (replenish pool) bids = Inr (al, p)
    \<and> dict_keys al = dict_keys bids \<and> total_resources p = total_resources pool"
proof (cases "sum_list (dict_values bids) \<le> total_resources pool")
  case True
  then show ?thesis
    by (simp add: allocate_eq replenish_def)
next
  case False
  have "\<not> (sum_list (dict_values bids) = 0 \<and> bids \<noteq> [])"
  proof
    assume a: "sum_list (dict_values bids) = 0 \<and> bids \<noteq> []"
    then have neg: "total_resources pool \<le> 0"
      using False by simp
    have "\<forall>x \<in> set (dict_values bids). x \<le> total_resources pool"
      using assms by (auto simp: dict_values_def)
    moreover have "dict_values bids \<noteq> []"
      using a by (simp add: dict_values_def)
    ultimately have "sum_list (dict_values bids) \<le> total_resources pool"
      using neg by (simp add: sum_list_le_bound)
    then show False using False by simp
  qed
  then show ?thesis
    using False by (auto simp: allocate_eq replenish_def dict_keys_map_values)
qed


subsection \<open>The contribution loop\<close>

lemma contribute_heap:
  "fst (contribute al h acc) a =
     (h a)\<lparr>resources_allocated := resources_allocated (fst (contribute al h acc) a)\<rparr>"
proof (induction al arbitrary: h acc)
  case Nil
  then show ?case by simp
next
  case (Cons p al)
  obtain agent allocated where p: "p = (agent, allocated)" by (cases p)
  define h' where "h' = h(agent := (h agent)
    \<lparr>resources_allocated := resources_allocated (h agent) + allocated\<rparr>)"
  define acc' where "acc' = dict_set agent (capability (h' agent) * allocated) acc"
  have step: "contribute (p # al) h acc = contribute al h' acc'"
    by (simp add: p h'_def acc'_def Let_def)
  have "fst (contribute al h' acc') a =
      (h' a)\<lparr>resources_allocated := resources_allocated (fst (contribute al h' acc') a)\<rparr>"
    by (rule Cons.IH)
  moreover have "(h' a)\<lparr>resources_allocated := x\<rparr> = (h a)\<lparr>resources_allocated := x\<rparr>" for x
    by (simp add: h'_def)
  ultimately show ?case
    by (simp only: step)
qed

lemma contribute_contributions:
  assumes "distinct (dict_keys al)" and "set (dict_keys al) \<inter> set (dict_keys acc) = {}"
  shows "snd (contribute al h acc) = acc @ map (\<lambda>(a, x). (a, capability (h a) * x)) al"
  using assms
proof (induction al arbitrary: h acc)
  case Nil
  then show ?case by simp
next
  case (Cons p al)
  obtain agent allocated where p: "p = (agent, allocated)" by (cases p)
  define h' where "h' = h(agent := (h agent)
    \<lparr>resources_allocated := resources_allocated (h agent) + allocated\<rparr>)"
  define acc' where "acc' = dict_set agent (capability (h' agent) * allocated) acc"
  have step: "contribute (p # al) h acc = contribute al h' acc'"
    by (simp add: p h'_def acc'_def Let_def)
  have fresh: "agent \<notin> set (dict_keys acc)" and notin: "agent \<notin> set (dict_keys al)"
    and dist: "distinct (dict_keys al)" and disj: "set (dict_keys al) \<inter> set (dict_keys acc) = {}"
    using Cons.prems by (auto simp: p dict_keys_Cons)
  have acc': "acc' = acc @ [(agent, capability (h agent) * allocated)]"
    using fresh by (simp add: acc'_def h'_def dict_set_new)
  have "set (dict_keys al) \<inter> set (dict_keys acc') = {}"
    using disj notin by (auto simp: acc' dict_keys_def)
  then have "snd (contribute al h' acc') =
      acc' @ map (\<lambda>(a, x). (a, capability (h' a) * x)) al"
    using dist by (rule Cons.IH [rotated])
  moreover have "map (\<lambda>(a, x). (a, capability (h' a) * x)) al =
      map (\<lambda>(a, x). (a, capability (h a) * x)) al"
    by (rule map_cong) (auto simp: h'_def)
  ultimately show ?case
    unfolding step by (simp add: acc' p)
qed

subsection \<open>The reward loop\<close>

lemma name_update_strategy: "name (update_strategy a r) = name a"
  by (simp add: update_strategy_def)

lemma reward_loop_result:
  assumes "distinct (dict_keys svs)"
    and "\<forall>a \<in> set (dict_keys svs). name (h a) \<in> set (dict_keys ph)
           \<and> name (h a) \<in> set (dict_keys ah) \<and> a \<in> set (dict_keys al)"
  shows "\<exists>h' ph' ah'. reward_loop svs al t (h, ph, ah, rs) =
        Inr (h', ph', ah', rs @ map (\<lambda>(a, sv). (a, sv * t)) svs)
      \<and> dict_keys ph' = dict_keys ph \<and> dict_keys ah' = dict_keys ah
      \<and> (\<forall>a. h' a = (case map_of svs a of None \<Rightarrow> h a
            | Some sv \<Rightarrow> update_strategy ((h a)\<lparr>payoff := payoff (h a) + sv * t\<rparr>) (sv * t)))"
  using assms
proof (induction svs arbitrary: h ph ah rs)
  case Nil
  then show ?case by simp
next
  case (Cons p svs)
  obtain agent sv where p: "p = (agent, sv)" by (cases p)
  define h1 where "h1 = h(agent := update_strategy
    ((h agent)\<lparr>payoff := payoff (h agent) + sv * t\<rparr>) (sv * t))"
  have names: "name (h1 a) = name (h a)" for a
    by (simp add: h1_def name_update_strategy)
  have notin: "agent \<notin> set (dict_keys svs)" and dist: "distinct (dict_keys svs)"
    using Cons.prems(1) by (simp_all add: p dict_keys_Cons)
  have here: "name (h agent) \<in> set (dict_keys ph)" "name (h agent) \<in> set (dict_keys ah)"
    "agent \<in> set (dict_keys al)"
    using Cons.prems(2) by (simp_all add: p dict_keys_Cons)
  obtain payoffs where payoffs: "dict_get ph (name (h agent)) = Inr payoffs"
    using dict_get_present [OF here(1)] by blast
  obtain allocations where allocations: "dict_get ah (name (h agent)) = Inr allocations"
    using dict_get_present [OF here(2)] by blast
  obtain allocated where allocated: "dict_get al agent = Inr allocated"
    using dict_get_present [OF here(3)] by blast
  define ph1 where "ph1 = dict_set (name (h agent)) (payoffs @ [payoff (h1 agent)]) ph"
  define ah1 where "ah1 = dict_set (name (h agent)) (allocations @ [allocated]) ah"
  have step: "reward_loop (p # svs) al t (h, ph, ah, rs) =
      reward_loop svs al t (h1, ph1, ah1, rs @ [(agent, sv * t)])"
    by (simp add: p Let_def h1_def name_update_strategy payoffs allocations allocated
        ph1_def ah1_def)
  have keys1: "dict_keys ph1 = dict_keys ph" "dict_keys ah1 = dict_keys ah"
    using here by (simp_all add: ph1_def ah1_def dict_keys_dict_set)
  have pre: "\<forall>a \<in> set (dict_keys svs). name (h1 a) \<in> set (dict_keys ph1)
      \<and> name (h1 a) \<in> set (dict_keys ah1) \<and> a \<in> set (dict_keys al)"
    using Cons.prems(2) by (simp add: names keys1 p dict_keys_Cons)
  obtain h' ph' ah' where res: "reward_loop svs al t (h1, ph1, ah1, rs @ [(agent, sv * t)]) =
        Inr (h', ph', ah', (rs @ [(agent, sv * t)]) @ map (\<lambda>(a, sv). (a, sv * t)) svs)"
    and keys: "dict_keys ph' = dict_keys ph1" "dict_keys ah' = dict_keys ah1"
    and heap: "\<forall>a. h' a = (case map_of svs a of None \<Rightarrow> h1 a
            | Some sv \<Rightarrow> update_strategy ((h1 a)\<lparr>payoff := payoff (h1 a) + sv * t\<rparr>) (sv * t))"
    using Cons.IH [OF dist pre] by blast
  have none: "map_of svs agent = None"
    using notin by (simp add: map_of_eq_None_iff dict_keys_def)
  have "h' a = (case map_of (p # svs) a of None \<Rightarrow> h a
            | Some sv \<Rightarrow> update_strategy ((h a)\<lparr>payoff := payoff (h a) + sv * t\<rparr>) (sv * t))" for a
    using heap none by (cases "a = agent") (simp_all add: p h1_def split: option.splits)
  then show ?case
    unfolding step using res keys keys1 by (simp add: p)
qed


lemma print_loop_ok:
  "\<forall>a \<in> set agents. a \<in> set (dict_keys al) \<Longrightarrow> print_loop agents al = Inr ()"
proof (induction agents)
  case Nil
  then show ?case by simp
next
  case (Cons a agents)
  obtain x where "dict_get al a = Inr x"
    using dict_get_present [of a al] Cons.prems by auto
  then show ?case
    using Cons by simp
qed

lemma reward_loop_histories:
  assumes "distinct (dict_keys svs)"
    and "\<forall>a \<in> set (dict_keys svs). name (h a) \<in> set (dict_keys ph)
           \<and> name (h a) \<in> set (dict_keys ah) \<and> a \<in> set (dict_keys al)"
    and "inj_on (\<lambda>a. name (h a)) (set (dict_keys svs))"
    and "reward_loop svs al t (h, ph, ah, rs) = Inr (h', ph', ah', rs')"
  shows "(\<forall>a \<in> set (dict_keys svs). \<exists>ps as x.
            map_of ph (name (h a)) = Some ps \<and> map_of ah (name (h a)) = Some as
          \<and> map_of al a = Some x
          \<and> map_of ph' (name (h a)) = Some (ps @ [payoff (h' a)])
          \<and> map_of ah' (name (h a)) = Some (as @ [x]))
    \<and> (\<forall>n. n \<notin> (\<lambda>a. name (h a)) ` set (dict_keys svs) \<longrightarrow>
            map_of ph' n = map_of ph n \<and> map_of ah' n = map_of ah n)"
  using assms
proof (induction svs arbitrary: h ph ah rs)
  case Nil
  then show ?case by (simp add: dict_keys_def)
next
  case (Cons p svs)
  obtain agent sv where p: "p = (agent, sv)" by (cases p)
  define h1 where "h1 = h(agent := update_strategy
    ((h agent)\<lparr>payoff := payoff (h agent) + sv * t\<rparr>) (sv * t))"
  have names: "name (h1 a) = name (h a)" for a
    by (simp add: h1_def name_update_strategy)
  have notin: "agent \<notin> set (dict_keys svs)" and dist: "distinct (dict_keys svs)"
    using Cons.prems(1) by (simp_all add: p dict_keys_Cons)
  have here: "name (h agent) \<in> set (dict_keys ph)" "name (h agent) \<in> set (dict_keys ah)"
    "agent \<in> set (dict_keys al)"
    using Cons.prems(2) by (simp_all add: p dict_keys_Cons)
  obtain payoffs where payoffs: "dict_get ph (name (h agent)) = Inr payoffs"
    using dict_get_present [OF here(1)] by blast
  obtain allocations where allocations: "dict_get ah (name (h agent)) = Inr allocations"
    using dict_get_present [OF here(2)] by blast
  obtain allocated where allocated: "dict_get al agent = Inr allocated"
    using dict_get_present [OF here(3)] by blast
  define ph1 where "ph1 = dict_set (name (h agent)) (payoffs @ [payoff (h1 agent)]) ph"
  define ah1 where "ah1 = dict_set (name (h agent)) (allocations @ [allocated]) ah"
  have step: "reward_loop (p # svs) al t (h, ph, ah, rs) =
      reward_loop svs al t (h1, ph1, ah1, rs @ [(agent, sv * t)])"
    by (simp add: p Let_def h1_def name_update_strategy payoffs allocations allocated
        ph1_def ah1_def)
  have keys1: "dict_keys ph1 = dict_keys ph" "dict_keys ah1 = dict_keys ah"
    using here by (simp_all add: ph1_def ah1_def dict_keys_dict_set)
  have pre: "\<forall>a \<in> set (dict_keys svs). name (h1 a) \<in> set (dict_keys ph1)
      \<and> name (h1 a) \<in> set (dict_keys ah1) \<and> a \<in> set (dict_keys al)"
    using Cons.prems(2) by (simp add: names keys1 p dict_keys_Cons)
  have inj: "inj_on (\<lambda>a. name (h a)) (insert agent (set (dict_keys svs)))"
    using Cons.prems(3) by (simp add: p dict_keys_Cons)
  then have inj1: "inj_on (\<lambda>a. name (h1 a)) (set (dict_keys svs))"
    by (simp add: names inj_on_def)
  have other: "name (h a) \<noteq> name (h agent)" if "a \<in> set (dict_keys svs)" for a
    using inj that notin by (auto simp: inj_on_def)
  have res: "reward_loop svs al t (h1, ph1, ah1, rs @ [(agent, sv * t)]) = Inr (h', ph', ah', rs')"
    using Cons.prems(4) by (simp only: step)
  have IH: "(\<forall>a \<in> set (dict_keys svs). \<exists>ps as x.
            map_of ph1 (name (h1 a)) = Some ps \<and> map_of ah1 (name (h1 a)) = Some as
          \<and> map_of al a = Some x
          \<and> map_of ph' (name (h1 a)) = Some (ps @ [payoff (h' a)])
          \<and> map_of ah' (name (h1 a)) = Some (as @ [x]))
    \<and> (\<forall>n. n \<notin> (\<lambda>a. name (h1 a)) ` set (dict_keys svs) \<longrightarrow>
            map_of ph' n = map_of ph1 n \<and> map_of ah' n = map_of ah1 n)"
    by (rule Cons.IH [OF dist pre inj1 res])
  have m1: "map_of ph1 = (map_of ph)(name (h agent) \<mapsto> payoffs @ [payoff (h1 agent)])"
    "map_of ah1 = (map_of ah)(name (h agent) \<mapsto> allocations @ [allocated])"
    by (simp_all add: ph1_def ah1_def map_of_dict_set)
  have none: "map_of svs agent = None"
    using notin by (simp add: map_of_eq_None_iff dict_keys_def)
  have same: "h' agent = h1 agent"
    using reward_loop_result [OF dist pre, of t "rs @ [(agent, sv * t)]"] res none by auto
  have outside: "name (h agent) \<notin> (\<lambda>a. name (h1 a)) ` set (dict_keys svs)"
  proof
    assume "name (h agent) \<in> (\<lambda>a. name (h1 a)) ` set (dict_keys svs)"
    then obtain a where "a \<in> set (dict_keys svs)" and "name (h agent) = name (h1 a)"
      by blast
    then show False
      using other [of a] by (simp add: names)
  qed
  have first: "map_of ph (name (h agent)) = Some payoffs
      \<and> map_of ah (name (h agent)) = Some allocations
      \<and> map_of al agent = Some allocated
      \<and> map_of ph' (name (h agent)) = Some (payoffs @ [payoff (h' agent)])
      \<and> map_of ah' (name (h agent)) = Some (allocations @ [allocated])"
    using payoffs allocations allocated IH outside
    by (simp add: dict_get_Inr_iff m1 same)
  have rest: "\<exists>ps as x.
            map_of ph (name (h a)) = Some ps \<and> map_of ah (name (h a)) = Some as
          \<and> map_of al a = Some x
          \<and> map_of ph' (name (h a)) = Some (ps @ [payoff (h' a)])
          \<and> map_of ah' (name (h a)) = Some (as @ [x])" if mem: "a \<in> set (dict_keys svs)" for a
  proof -
    obtain ps as x where "map_of ph1 (name (h1 a)) = Some ps"
      "map_of ah1 (name (h1 a)) = Some as" "map_of al a = Some x"
      "map_of ph' (name (h1 a)) = Some (ps @ [payoff (h' a)])"
      "map_of ah' (name (h1 a)) = Some (as @ [x])"
      using IH mem by blast
    then show ?thesis
      using other [OF mem] by (simp add: names m1)
  qed
  have unchanged: "map_of ph' n = map_of ph n \<and> map_of ah' n = map_of ah n"
    if "n \<notin> (\<lambda>a. name (h a)) ` set (dict_keys (p # svs))" for n
  proof -
    have "n \<noteq> name (h agent)" and "n \<notin> (\<lambda>a. name (h1 a)) ` set (dict_keys svs)"
      using that by (auto simp: p dict_keys_Cons names)
    then show ?thesis
      using IH by (simp add: m1)
  qed
  show ?case
    using first rest unchanged by (auto simp: p dict_keys_Cons)
qed


subsection \<open>One round\<close>

lemma remaining_replenish: "remaining_resources (replenish p) = total_resources p"
  by (simp add: replenish_def)

lemma bid_capped: "bid a r \<le> r"
  by (simp add: bid_def Let_def)

lemma dict_keys_compute_shapley_value:
  "dict_keys (compute_shapley_value cs tc) = dict_keys cs"
  by (simp add: compute_shapley_value_def dict_keys_def split_beta)

lemma dict_keys_contributions:
  "dict_keys (map (\<lambda>(a, x). (a, capability (h a) * x)) al) = dict_keys al"
  by (simp add: dict_keys_def split_beta)

lemma reward_commutes:
  "x = y\<lparr>resources_allocated := r\<rparr> \<Longrightarrow>
     update_strategy (x\<lparr>payoff := payoff x + c\<rparr>) c =
       (update_strategy (y\<lparr>payoff := payoff y + c\<rparr>) c)\<lparr>resources_allocated := r\<rparr>"
  by (simp add: update_strategy_def)

lemma play_round_result:
  assumes names: "\<forall>a \<in> set agents.
      name (g_heap s a) \<in> set (dict_keys (payoff_history s))
    \<and> name (g_heap s a) \<in> set (dict_keys (allocation_history s))"
  shows "\<exists>s' rep. play_round agents s = Inr s'
    \<and> g_log s' = g_log s @ [rep]
    \<and> r_bids rep = round_bids agents (g_heap s) (total_resources (g_pool s))
    \<and> allocate (replenish (g_pool s)) (r_bids rep) = Inr (r_allocation rep, g_pool s')
    \<and> dict_keys (r_allocation rep) = dict_keys (r_bids rep)
    \<and> total_resources (g_pool s') = total_resources (g_pool s)
    \<and> r_contributions rep =
        map (\<lambda>(a, x). (a, capability (g_heap s a) * x)) (r_allocation rep)
    \<and> r_total_contribution rep = sum_list (dict_values (r_contributions rep))
    \<and> r_shapley_values rep =
        compute_shapley_value (r_contributions rep) (r_total_contribution rep)
    \<and> r_rewards rep =
        map (\<lambda>(a, sv). (a, sv * total_resources (g_pool s))) (r_shapley_values rep)
    \<and> dict_keys (payoff_history s') = dict_keys (payoff_history s)
    \<and> dict_keys (allocation_history s') = dict_keys (allocation_history s)
    \<and> g_calls s' = g_calls s @ round_calls agents (r_shapley_values rep)
    \<and> (\<forall>a. \<exists>ra. g_heap s' a =
          (case map_of (r_shapley_values rep) a of
             None \<Rightarrow> g_heap s a
           | Some sv \<Rightarrow>
               update_strategy
                 ((g_heap s a)\<lparr>payoff :=
                    payoff (g_heap s a) + sv * total_resources (g_pool s)\<rparr>)
                 (sv * total_resources (g_pool s)))
          \<lparr>resources_allocated := ra\<rparr>)
    \<and> (inj_on (\<lambda>a. name (g_heap s a)) (set agents) \<longrightarrow>
         (\<forall>a \<in> set agents. \<exists>ps as x.
              map_of (payoff_history s) (name (g_heap s a)) = Some ps
            \<and> map_of (allocation_history s) (name (g_heap s a)) = Some as
            \<and> map_of (r_allocation rep) a = Some x
            \<and> map_of (payoff_history s') (name (g_heap s a)) =
                Some (ps @ [payoff (g_heap s' a)])
            \<and> map_of (allocation_history s') (name (g_heap s a)) = Some (as @ [x])))"
proof -
  define t where "t = total_resources (g_pool s)"
  define bids where "bids = round_bids agents (g_heap s) t"
  have capped: "\<forall>(agent, b) \<in> set bids. b \<le> total_resources (g_pool s)"
  proof (clarify)
    fix agent b
    assume "(agent, b) \<in> set bids"
    then have "b = bid (g_heap s agent) t"
      unfolding bids_def by (rule round_bids_values)
    then show "b \<le> total_resources (g_pool s)"
      by (simp add: t_def bid_capped)
  qed
  obtain al p where alloc: "allocate (replenish (g_pool s)) bids = Inr (al, p)"
    and keys_al: "dict_keys al = dict_keys bids" and total_p: "total_resources p = t"
    using allocate_capped [OF capped] by (auto simp: t_def)
  have dist_al: "distinct (dict_keys al)" and set_al: "set (dict_keys al) = set agents"
    by (simp_all add: keys_al bids_def round_bids_distinct round_bids_keys)
  define h1 where "h1 = fst (contribute al (g_heap s) [])"
  define cs where "cs = map (\<lambda>(a, x). (a, capability (g_heap s a) * x)) al"
  have "snd (contribute al (g_heap s) []) = cs"
    using contribute_contributions [OF dist_al, of "[]" "g_heap s"]
    by (simp add: cs_def dict_keys_def)
  then have contr: "contribute al (g_heap s) [] = (h1, cs)"
    by (simp add: h1_def prod_eq_iff)
  have h1: "h1 a = (g_heap s a)\<lparr>resources_allocated := resources_allocated (h1 a)\<rparr>" for a
    unfolding h1_def by (rule contribute_heap)
  have h1_name: "name (h1 a) = name (g_heap s a)" for a
    by (subst h1) simp
  define tc where "tc = sum_list (dict_values cs)"
  define svs where "svs = compute_shapley_value cs tc"
  have keys_svs: "dict_keys svs = dict_keys al"
    by (simp add: svs_def cs_def dict_keys_compute_shapley_value dict_keys_contributions)
  have dist_svs: "distinct (dict_keys svs)"
    by (simp add: keys_svs dist_al)
  have pre: "\<forall>a \<in> set (dict_keys svs). name (h1 a) \<in> set (dict_keys (payoff_history s))
      \<and> name (h1 a) \<in> set (dict_keys (allocation_history s)) \<and> a \<in> set (dict_keys al)"
    using names by (simp add: keys_svs set_al h1_name)
  obtain h2 ph' ah' where rew: "reward_loop svs al t
        (h1, payoff_history s, allocation_history s, []) =
        Inr (h2, ph', ah', [] @ map (\<lambda>(a, sv). (a, sv * t)) svs)"
    and keys_h: "dict_keys ph' = dict_keys (payoff_history s)"
      "dict_keys ah' = dict_keys (allocation_history s)"
    and h2: "\<forall>a. h2 a = (case map_of svs a of None \<Rightarrow> h1 a
        | Some sv \<Rightarrow> update_strategy ((h1 a)\<lparr>payoff := payoff (h1 a) + sv * t\<rparr>) (sv * t))"
    using reward_loop_result [OF dist_svs pre, of t "[]"] by blast
  have pr: "print_loop agents al = Inr ()"
    by (rule print_loop_ok) (simp add: set_al)
  define rep where "rep = \<lparr>r_bids = bids, r_allocation = al, r_contributions = cs,
    r_total_contribution = tc, r_shapley_values = svs,
    r_rewards = map (\<lambda>(a, sv). (a, sv * t)) svs\<rparr>"
  define s' where "s' = \<lparr>g_heap = h2, g_pool = p, payoff_history = ph',
    allocation_history = ah', g_calls = g_calls s @ round_calls agents svs,
    g_log = g_log s @ [rep]\<rparr>"
  have run: "play_round agents s = Inr s'"
    using alloc contr rew pr
    by (simp add: play_round_def Let_def remaining_replenish bids_def t_def total_p
        tc_def svs_def s'_def rep_def)
  have heap: "\<exists>ra. h2 a =
      (case map_of svs a of None \<Rightarrow> g_heap s a
       | Some sv \<Rightarrow> update_strategy
           ((g_heap s a)\<lparr>payoff := payoff (g_heap s a) + sv * t\<rparr>) (sv * t))
      \<lparr>resources_allocated := ra\<rparr>" for a
  proof (cases "map_of svs a")
    case None
    then have "h2 a = (g_heap s a)\<lparr>resources_allocated := resources_allocated (h1 a)\<rparr>"
      using h2 h1 [of a] by simp
    then show ?thesis using None by auto
  next
    case (Some sv)
    then have "h2 a = update_strategy ((h1 a)\<lparr>payoff := payoff (h1 a) + sv * t\<rparr>) (sv * t)"
      using h2 by simp
    also have "\<dots> = (update_strategy
        ((g_heap s a)\<lparr>payoff := payoff (g_heap s a) + sv * t\<rparr>) (sv * t))
        \<lparr>resources_allocated := resources_allocated (h1 a)\<rparr>"
      by (rule reward_commutes) (rule h1)
    finally show ?thesis using Some by auto
  qed
  have hist: "\<forall>a \<in> set agents. \<exists>ps as x.
              map_of (payoff_history s) (name (g_heap s a)) = Some ps
            \<and> map_of (allocation_history s) (name (g_heap s a)) = Some as
            \<and> map_of al a = Some x
            \<and> map_of ph' (name (g_heap s a)) = Some (ps @ [payoff (h2 a)])
            \<and> map_of ah' (name (g_heap s a)) = Some (as @ [x])"
    if inj: "inj_on (\<lambda>a. name (g_heap s a)) (set agents)"
  proof -
    have inj1: "inj_on (\<lambda>a. name (h1 a)) (set (dict_keys svs))"
      using inj by (simp add: h1_name keys_svs set_al)
    have "\<forall>a \<in> set (dict_keys svs). \<exists>ps as x.
            map_of (payoff_history s) (name (h1 a)) = Some ps
          \<and> map_of (allocation_history s) (name (h1 a)) = Some as
          \<and> map_of al a = Some x
          \<and> map_of ph' (name (h1 a)) = Some (ps @ [payoff (h2 a)])
          \<and> map_of ah' (name (h1 a)) = Some (as @ [x])"
      using reward_loop_histories [OF dist_svs pre inj1 rew] by blast
    then show ?thesis
      by (simp add: h1_name keys_svs set_al)
  qed
  show ?thesis
    apply (rule exI [of _ s'], rule exI [of _ rep])
    using run alloc keys_al total_p keys_h heap hist
    unfolding s'_def rep_def bids_def t_def cs_def tc_def svs_def
    by simp
qed


subsection \<open>The rounds of a game\<close>

lemma rounds_loop_Suc:
  "rounds_loop (Suc k) agents s =
     (case rounds_loop k agents s of Inl e \<Rightarrow> Inl e | Inr s' \<Rightarrow> play_round agents s')"
proof (induction k arbitrary: s)
  case 0
  show ?case by (simp split: sum.splits)
next
  case (Suc k)
  show ?case
  proof (cases "play_round agents s")
    case (Inl e)
    then show ?thesis by simp
  next
    case (Inr s1)
    have "rounds_loop (Suc (Suc k)) agents s = rounds_loop (Suc k) agents s1"
      using Inr by simp
    also have "\<dots> = (case rounds_loop k agents s1 of Inl e \<Rightarrow> Inl e
        | Inr s' \<Rightarrow> play_round agents s')"
      by (rule Suc.IH)
    also have "rounds_loop k agents s1 = rounds_loop (Suc k) agents s"
      using Inr by simp
    finally show ?thesis .
  qed
qed

lemma heap_step:
  assumes "x' = (case m of None \<Rightarrow> x
      | Some sv \<Rightarrow> update_strategy (x\<lparr>payoff := payoff x + sv * t\<rparr>) (sv * t))
      \<lparr>resources_allocated := ra\<rparr>"
  shows "name x' = name x \<and> capability x' = capability x
    \<and> resource_need x' = resource_need x \<and> selfishness x' = selfishness x
    \<and> payoff x' = payoff x + (case m of None \<Rightarrow> 0 | Some sv \<Rightarrow> sv * t)
    \<and> (0 < strategy x \<longrightarrow> 0 < strategy x')"
  using assms by (cases m) (simp_all add: update_strategy_def)

lemma game_run:
  "\<exists>s. rounds_loop k agents (game_init agents h pool) = Inr s
     \<and> (\<forall>a. name (g_heap s a) = name (h a) \<and> capability (g_heap s a) = capability (h a)
          \<and> resource_need (g_heap s a) = resource_need (h a)
          \<and> selfishness (g_heap s a) = selfishness (h a)
          \<and> (0 < strategy (h a) \<longrightarrow> 0 < strategy (g_heap s a)))
     \<and> dict_keys (payoff_history s) = dict_keys (history_init agents h)
     \<and> dict_keys (allocation_history s) = dict_keys (history_init agents h)
     \<and> total_resources (g_pool s) = total_resources pool
     \<and> length (g_log s) = k"
proof (induction k)
  case 0
  show ?case by (simp add: game_init_def)
next
  case (Suc k)
  then obtain s where run: "rounds_loop k agents (game_init agents h pool) = Inr s"
    and fields: "\<forall>a. name (g_heap s a) = name (h a) \<and> capability (g_heap s a) = capability (h a)
          \<and> resource_need (g_heap s a) = resource_need (h a)
          \<and> selfishness (g_heap s a) = selfishness (h a)
          \<and> (0 < strategy (h a) \<longrightarrow> 0 < strategy (g_heap s a))"
    and keys: "dict_keys (payoff_history s) = dict_keys (history_init agents h)"
      "dict_keys (allocation_history s) = dict_keys (history_init agents h)"
    and total: "total_resources (g_pool s) = total_resources pool"
    and len: "length (g_log s) = k"
    by blast
  have names: "\<forall>a \<in> set agents.
      name (g_heap s a) \<in> set (dict_keys (payoff_history s))
    \<and> name (g_heap s a) \<in> set (dict_keys (allocation_history s))"
    using fields by (simp add: keys history_init_keys)
  obtain s' rep where step: "play_round agents s = Inr s'"
    and log: "g_log s' = g_log s @ [rep]"
    and total': "total_resources (g_pool s') = total_resources (g_pool s)"
    and keys': "dict_keys (payoff_history s') = dict_keys (payoff_history s)"
      "dict_keys (allocation_history s') = dict_keys (allocation_history s)"
    and heap: "\<forall>a. \<exists>ra. g_heap s' a =
          (case map_of (r_shapley_values rep) a of
             None \<Rightarrow> g_heap s a
           | Some sv \<Rightarrow>
               update_strategy
                 ((g_heap s a)\<lparr>payoff :=
                    payoff (g_heap s a) + sv * total_resources (g_pool s)\<rparr>)
                 (sv * total_resources (g_pool s)))
          \<lparr>resources_allocated := ra\<rparr>"
    using play_round_result [OF names] by blast
  have fields': "name (g_heap s' a) = name (h a) \<and> capability (g_heap s' a) = capability (h a)
          \<and> resource_need (g_heap s' a) = resource_need (h a)
          \<and> selfishness (g_heap s' a) = selfishness (h a)
          \<and> (0 < strategy (h a) \<longrightarrow> 0 < strategy (g_heap s' a))" for a
  proof -
    obtain ra where "g_heap s' a =
          (case map_of (r_shapley_values rep) a of
             None \<Rightarrow> g_heap s a
           | Some sv \<Rightarrow>
               update_strategy
                 ((g_heap s a)\<lparr>payoff :=
                    payoff (g_heap s a) + sv * total_resources (g_pool s)\<rparr>)
                 (sv * total_resources (g_pool s)))
          \<lparr>resources_allocated := ra\<rparr>"
      using heap by blast
    from heap_step [OF this] show ?thesis
      using fields by simp
  qed
  have "rounds_loop (Suc k) agents (game_init agents h pool) = Inr s'"
    by (simp only: rounds_loop_Suc run step sum.case)
  then show ?case
    using fields' keys keys' total total' log len by simp
qed

subsection \<open>The game\<close>

lemma game_run_names:
  assumes "rounds_loop k agents (game_init agents h pool) = Inr s"
  shows "\<forall>a \<in> set agents.
      name (g_heap s a) \<in> set (dict_keys (payoff_history s))
    \<and> name (g_heap s a) \<in> set (dict_keys (allocation_history s))"
  using game_run [of k agents h pool] assms by (simp add: history_init_keys)

lemma game_of_rounds:
  "resource_allocation_game agents h pool (int k) =
     rounds_loop k agents (game_init agents h pool)"
  by (simp add: resource_allocation_game_def)

lemma sum_list_lookup:
  fixes f :: "'v \<Rightarrow> real"
  assumes "distinct (dict_keys d)" and "distinct xs" and "set xs = set (dict_keys d)"
  shows "(\<Sum>a\<leftarrow>xs. case map_of d a of None \<Rightarrow> 0 | Some v \<Rightarrow> f v) =
     sum_list (map (\<lambda>(a, v). f v) d)"
proof -
  let ?g = "\<lambda>a. case map_of d a of None \<Rightarrow> 0 | Some v \<Rightarrow> f v"
  have "map (\<lambda>(a, v). f v) d = map ?g (dict_keys d)"
    using assms(1) by (auto simp: dict_keys_def)
  then have "sum_list (map (\<lambda>(a, v). f v) d) = sum ?g (set (dict_keys d))"
    using assms(1) by (simp add: sum_list_distinct_conv_sum_set)
  moreover have "sum_list (map ?g xs) = sum ?g (set xs)"
    using assms(2) by (simp add: sum_list_distinct_conv_sum_set)
  ultimately show ?thesis
    using assms(3) by simp
qed

lemma sum_rewards:
  fixes t :: real
  shows "sum_list (dict_values (map (\<lambda>(a, sv). (a, sv * t)) svs)) =
     sum_list (dict_values svs) * t"
  by (induction svs) (simp_all add: dict_values_def split_beta distrib_right)

lemma sum_compute_shapley_value:
  "sum_list (dict_values (compute_shapley_value cs (sum_list (dict_values cs)))) =
     (if 0 < sum_list (dict_values cs) then 1 else 0)"
proof (cases "0 < sum_list (dict_values cs)")
  case True
  then have "compute_shapley_value cs (sum_list (dict_values cs)) =
      map (\<lambda>(agent, c). (agent, c / sum_list (dict_values cs))) cs"
    by (simp add: compute_shapley_value_def)
  then show ?thesis
    using True by (simp add: sum_shares)
next
  case False
  then have "compute_shapley_value cs (sum_list (dict_values cs)) =
      map (\<lambda>(agent, c). (agent, 0)) cs"
    by (simp add: compute_shapley_value_def)
  moreover have "sum_list (dict_values (map (\<lambda>(agent, c). (agent, 0::real)) cs)) = 0"
    by (induction cs) (simp_all add: dict_values_def split_beta)
  ultimately show ?thesis
    using False by simp
qed

lemma game_round:
  "\<exists>s s' rep. rounds_loop k agents (game_init agents h pool) = Inr s
     \<and> rounds_loop (Suc k) agents (game_init agents h pool) = Inr s'
     \<and> play_round agents s = Inr s'
     \<and> g_log s' = g_log s @ [rep]
     \<and> total_resources (g_pool s) = total_resources pool
     \<and> (\<forall>a. name (g_heap s a) = name (h a) \<and> capability (g_heap s a) = capability (h a)
          \<and> resource_need (g_heap s a) = resource_need (h a)
          \<and> selfishness (g_heap s a) = selfishness (h a)
          \<and> (0 < strategy (h a) \<longrightarrow> 0 < strategy (g_heap s a)))
     \<and> r_bids rep = round_bids agents (g_heap s) (total_resources pool)
     \<and> allocate (replenish (g_pool s)) (r_bids rep) = Inr (r_allocation rep, g_pool s')
     \<and> dict_keys (r_allocation rep) = dict_keys (r_bids rep)
     \<and> r_contributions rep =
         map (\<lambda>(a, x). (a, capability (h a) * x)) (r_allocation rep)
     \<and> r_total_contribution rep = sum_list (dict_values (r_contributions rep))
     \<and> r_shapley_values rep =
         compute_shapley_value (r_contributions rep) (r_total_contribution rep)
     \<and> r_rewards rep =
         map (\<lambda>(a, sv). (a, sv * total_resources pool)) (r_shapley_values rep)
     \<and> distinct (dict_keys (r_rewards rep))
     \<and> set (dict_keys (r_rewards rep)) = set agents
     \<and> (\<forall>a. payoff (g_heap s' a) =
           payoff (g_heap s a)
             + (case map_of (r_rewards rep) a of None \<Rightarrow> 0 | Some reward \<Rightarrow> reward))
     \<and> g_calls s' = g_calls s @ round_calls agents (r_shapley_values rep)
     \<and> (inj_on (\<lambda>a. name (h a)) (set agents) \<longrightarrow>
         (\<forall>a \<in> set agents. \<exists>ps as x.
              map_of (payoff_history s) (name (h a)) = Some ps
            \<and> map_of (allocation_history s) (name (h a)) = Some as
            \<and> map_of (r_allocation rep) a = Some x
            \<and> map_of (payoff_history s') (name (h a)) = Some (ps @ [payoff (g_heap s' a)])
            \<and> map_of (allocation_history s') (name (h a)) = Some (as @ [x])))"
proof -
  obtain s where run: "rounds_loop k agents (game_init agents h pool) = Inr s"
    and fields: "\<forall>a. name (g_heap s a) = name (h a) \<and> capability (g_heap s a) = capability (h a)
          \<and> resource_need (g_heap s a) = resource_need (h a)
          \<and> selfishness (g_heap s a) = selfishness (h a)
          \<and> (0 < strategy (h a) \<longrightarrow> 0 < strategy (g_heap s a))"
    and total: "total_resources (g_pool s) = total_resources pool"
    using game_run [of k agents h pool] by blast
  have names: "\<forall>a \<in> set agents.
      name (g_heap s a) \<in> set (dict_keys (payoff_history s))
    \<and> name (g_heap s a) \<in> set (dict_keys (allocation_history s))"
    using run by (rule game_run_names)
  obtain s' rep where step: "play_round agents s = Inr s'"
    and log: "g_log s' = g_log s @ [rep]"
    and bids: "r_bids rep = round_bids agents (g_heap s) (total_resources (g_pool s))"
    and alloc: "allocate (replenish (g_pool s)) (r_bids rep) = Inr (r_allocation rep, g_pool s')"
    and keys_al: "dict_keys (r_allocation rep) = dict_keys (r_bids rep)"
    and cs: "r_contributions rep =
        map (\<lambda>(a, x). (a, capability (g_heap s a) * x)) (r_allocation rep)"
    and tc: "r_total_contribution rep = sum_list (dict_values (r_contributions rep))"
    and svs: "r_shapley_values rep =
        compute_shapley_value (r_contributions rep) (r_total_contribution rep)"
    and rws: "r_rewards rep =
        map (\<lambda>(a, sv). (a, sv * total_resources (g_pool s))) (r_shapley_values rep)"
    and calls: "g_calls s' = g_calls s @ round_calls agents (r_shapley_values rep)"
    and heap: "\<forall>a. \<exists>ra. g_heap s' a =
          (case map_of (r_shapley_values rep) a of
             None \<Rightarrow> g_heap s a
           | Some sv \<Rightarrow>
               update_strategy
                 ((g_heap s a)\<lparr>payoff :=
                    payoff (g_heap s a) + sv * total_resources (g_pool s)\<rparr>)
                 (sv * total_resources (g_pool s)))
          \<lparr>resources_allocated := ra\<rparr>"
    and hist: "inj_on (\<lambda>a. name (g_heap s a)) (set agents) \<longrightarrow>
         (\<forall>a \<in> set agents. \<exists>ps as x.
              map_of (payoff_history s) (name (g_heap s a)) = Some ps
            \<and> map_of (allocation_history s) (name (g_heap s a)) = Some as
            \<and> map_of (r_allocation rep) a = Some x
            \<and> map_of (payoff_history s') (name (g_heap s a)) =
                Some (ps @ [payoff (g_heap s' a)])
            \<and> map_of (allocation_history s') (name (g_heap s a)) = Some (as @ [x]))"
    using play_round_result [OF names] by blast
  have same_names: "(\<lambda>a. name (g_heap s a)) = (\<lambda>a. name (h a))"
    using fields by auto
  have hist': "inj_on (\<lambda>a. name (h a)) (set agents) \<longrightarrow>
         (\<forall>a \<in> set agents. \<exists>ps as x.
              map_of (payoff_history s) (name (h a)) = Some ps
            \<and> map_of (allocation_history s) (name (h a)) = Some as
            \<and> map_of (r_allocation rep) a = Some x
            \<and> map_of (payoff_history s') (name (h a)) = Some (ps @ [payoff (g_heap s' a)])
            \<and> map_of (allocation_history s') (name (h a)) = Some (as @ [x]))"
    using hist fields by (simp add: same_names)
  have next_state: "rounds_loop (Suc k) agents (game_init agents h pool) = Inr s'"
    by (simp only: rounds_loop_Suc run step sum.case)
  have cs': "r_contributions rep =
      map (\<lambda>(a, x). (a, capability (h a) * x)) (r_allocation rep)"
    using fields by (simp add: cs)
  have "dict_keys (r_rewards rep) = dict_keys (r_shapley_values rep)"
    unfolding rws by (simp add: dict_keys_def split_beta)
  also have "\<dots> = dict_keys (r_contributions rep)"
    unfolding svs by (rule dict_keys_compute_shapley_value)
  also have "\<dots> = dict_keys (r_allocation rep)"
    unfolding cs by (rule dict_keys_contributions)
  finally have keys_rw: "dict_keys (r_rewards rep) = dict_keys (r_bids rep)"
    by (simp add: keys_al)
  have lookup: "map_of (r_rewards rep) a =
      map_option (\<lambda>sv. sv * total_resources (g_pool s)) (map_of (r_shapley_values rep) a)" for a
    by (simp add: rws map_of_map)
  have pay: "payoff (g_heap s' a) = payoff (g_heap s a)
      + (case map_of (r_rewards rep) a of None \<Rightarrow> 0 | Some reward \<Rightarrow> reward)" for a
  proof -
    obtain ra where "g_heap s' a =
          (case map_of (r_shapley_values rep) a of
             None \<Rightarrow> g_heap s a
           | Some sv \<Rightarrow>
               update_strategy
                 ((g_heap s a)\<lparr>payoff :=
                    payoff (g_heap s a) + sv * total_resources (g_pool s)\<rparr>)
                 (sv * total_resources (g_pool s)))
          \<lparr>resources_allocated := ra\<rparr>"
      using heap by blast
    from heap_step [OF this] show ?thesis
      by (simp add: lookup split: option.splits)
  qed
  have bids': "r_bids rep = round_bids agents (g_heap s) (total_resources pool)"
    by (simp add: bids total)
  have rws': "r_rewards rep =
      map (\<lambda>(a, sv). (a, sv * total_resources pool)) (r_shapley_values rep)"
    by (simp add: rws total)
  have dist: "distinct (dict_keys (r_rewards rep))"
    by (simp add: keys_rw bids round_bids_distinct)
  have keys_set: "set (dict_keys (r_rewards rep)) = set agents"
    by (simp add: keys_rw bids round_bids_keys)
  have pay': "\<forall>a. payoff (g_heap s' a) = payoff (g_heap s a)
      + (case map_of (r_rewards rep) a of None \<Rightarrow> 0 | Some reward \<Rightarrow> reward)"
    using pay by blast
  from run next_state step log total fields bids' alloc keys_al cs' tc svs rws' dist
    keys_set pay' calls hist'
  show ?thesis by blast
qed

lemma game_of_rounds_Suc:
  "resource_allocation_game agents h pool (int k + 1) =
     rounds_loop (Suc k) agents (game_init agents h pool)"
  by (simp add: resource_allocation_game_def nat_add_distrib)

lemma round_reward_total:
  assumes "r_contributions rep = cs"
    and "r_total_contribution rep = sum_list (dict_values (r_contributions rep))"
    and "r_shapley_values rep =
         compute_shapley_value (r_contributions rep) (r_total_contribution rep)"
    and "r_rewards rep = map (\<lambda>(a, sv). (a, sv * t)) (r_shapley_values rep)"
  shows "sum_list (dict_values (r_rewards rep)) =
     (if 0 < r_total_contribution rep then t else 0)"
proof -
  have "sum_list (dict_values (r_rewards rep)) = sum_list (dict_values (r_shapley_values rep)) * t"
    unfolding assms(4) by (rule sum_rewards)
  also have "sum_list (dict_values (r_shapley_values rep)) =
      (if 0 < r_total_contribution rep then 1 else 0)"
    unfolding assms(3) assms(2) by (rule sum_compute_shapley_value)
  finally show ?thesis by simp
qed

lemma aggregate_step:
  fixes p p' :: "ref \<Rightarrow> real"
  assumes "distinct (dict_keys rws)" and "set (dict_keys rws) = set agents"
    and "\<forall>a. p' a = p a + (case map_of rws a of None \<Rightarrow> 0 | Some reward \<Rightarrow> reward)"
  shows "(\<Sum>a\<leftarrow>remdups agents. p' a) = (\<Sum>a\<leftarrow>remdups agents. p a) + sum_list (dict_values rws)"
proof -
  have "(\<Sum>a\<leftarrow>remdups agents. p' a) =
      (\<Sum>a\<leftarrow>remdups agents. p a + (case map_of rws a of None \<Rightarrow> 0 | Some reward \<Rightarrow> reward))"
    using assms(3) by simp
  also have "\<dots> = (\<Sum>a\<leftarrow>remdups agents. p a)
      + (\<Sum>a\<leftarrow>remdups agents. case map_of rws a of None \<Rightarrow> 0 | Some reward \<Rightarrow> reward)"
    by (rule sum_list_addf)
  also have "(\<Sum>a\<leftarrow>remdups agents. case map_of rws a of None \<Rightarrow> 0 | Some reward \<Rightarrow> reward) =
      sum_list (map (\<lambda>(a, v). v) rws)"
    by (rule sum_list_lookup [OF assms(1)]) (simp_all add: assms(2))
  also have "map (\<lambda>(a, v). v) rws = dict_values rws"
    by (simp add: dict_values_def split_beta)
  finally show ?thesis .
qed




lemma comprehension_entries:
  "(k, v) \<in> set (foldl (\<lambda>d a. dict_set (key a) (f a) d) d0 xs) \<Longrightarrow>
     (k, v) \<in> set d0 \<or> (\<exists>x \<in> set xs. k = key x \<and> v = f x)"
proof (induction xs arbitrary: d0)
  case Nil
  then show ?case by simp
next
  case (Cons x xs)
  then have "(k, v) \<in> set (dict_set (key x) (f x) d0) \<or> (\<exists>y \<in> set xs. k = key y \<and> v = f y)"
    by simp
  then show ?case
    using dict_set_entries [of k v "key x" "f x" d0] by auto
qed

lemma history_init_values: "(n, l) \<in> set (history_init agents h) \<Longrightarrow> l = []"
  using comprehension_entries [of n l "\<lambda>a. name (h a)" "\<lambda>a. []" "[]" agents]
  by (auto simp: history_init_def)

lemma history_init_distinct: "distinct (dict_keys (history_init agents h))"
  using comprehension_distinct [of "[]" "\<lambda>a. name (h a)" "\<lambda>a. []" agents]
  by (simp add: history_init_def dict_keys_def)

lemma history_init_lookup:
  assumes "a \<in> set agents"
  shows "map_of (history_init agents h) (name (h a)) = Some []"
proof -
  have "name (h a) \<in> set (dict_keys (history_init agents h))"
    using assms by (simp add: history_init_keys)
  then have "map_of (history_init agents h) (name (h a)) \<noteq> None"
    by (simp add: dict_keys_def map_of_eq_None_iff)
  then obtain l where l: "map_of (history_init agents h) (name (h a)) = Some l"
    by blast
  then have "(name (h a), l) \<in> set (history_init agents h)"
    by (rule map_of_SomeD)
  then have "l = []"
    by (rule history_init_values)
  then show ?thesis using l by simp
qed

lemma game_histories_rounds:
  assumes inj: "inj_on (\<lambda>a. name (h a)) (set agents)"
  shows "\<exists>s. rounds_loop k agents (game_init agents h pool) = Inr s
    \<and> (\<forall>a \<in> set agents. \<exists>ps as.
          map_of (payoff_history s) (name (h a)) = Some ps
        \<and> map_of (allocation_history s) (name (h a)) = Some as
        \<and> length ps = k \<and> length as = k
        \<and> (\<forall>j<k. \<exists>sj. rounds_loop (Suc j) agents (game_init agents h pool) = Inr sj
              \<and> ps ! j = payoff (g_heap sj a)
              \<and> map_of (r_allocation (last (g_log sj))) a = Some (as ! j)))"
proof (induction k)
  case 0
  show ?case
    by (simp add: game_init_def history_init_lookup)
next
  case (Suc k)
  then obtain s0 where run0: "rounds_loop k agents (game_init agents h pool) = Inr s0"
    and IH: "\<forall>a \<in> set agents. \<exists>ps as.
          map_of (payoff_history s0) (name (h a)) = Some ps
        \<and> map_of (allocation_history s0) (name (h a)) = Some as
        \<and> length ps = k \<and> length as = k
        \<and> (\<forall>j<k. \<exists>sj. rounds_loop (Suc j) agents (game_init agents h pool) = Inr sj
              \<and> ps ! j = payoff (g_heap sj a)
              \<and> map_of (r_allocation (last (g_log sj))) a = Some (as ! j))"
    by blast
  obtain s s' rep where run: "rounds_loop k agents (game_init agents h pool) = Inr s"
    and next_state: "rounds_loop (Suc k) agents (game_init agents h pool) = Inr s'"
    and log: "g_log s' = g_log s @ [rep]"
    and hist: "inj_on (\<lambda>a. name (h a)) (set agents) \<longrightarrow>
         (\<forall>a \<in> set agents. \<exists>ps as x.
              map_of (payoff_history s) (name (h a)) = Some ps
            \<and> map_of (allocation_history s) (name (h a)) = Some as
            \<and> map_of (r_allocation rep) a = Some x
            \<and> map_of (payoff_history s') (name (h a)) = Some (ps @ [payoff (g_heap s' a)])
            \<and> map_of (allocation_history s') (name (h a)) = Some (as @ [x]))"
    using game_round [of k agents h pool] by blast
  have s: "s0 = s"
    using run run0 by simp
  have "\<exists>ps as.
          map_of (payoff_history s') (name (h a)) = Some ps
        \<and> map_of (allocation_history s') (name (h a)) = Some as
        \<and> length ps = Suc k \<and> length as = Suc k
        \<and> (\<forall>j<Suc k. \<exists>sj. rounds_loop (Suc j) agents (game_init agents h pool) = Inr sj
              \<and> ps ! j = payoff (g_heap sj a)
              \<and> map_of (r_allocation (last (g_log sj))) a = Some (as ! j))"
    if mem: "a \<in> set agents" for a
  proof -
    obtain ps as where old: "map_of (payoff_history s) (name (h a)) = Some ps"
      "map_of (allocation_history s) (name (h a)) = Some as"
      and len: "length ps = k" "length as = k"
      and before: "\<forall>j<k. \<exists>sj. rounds_loop (Suc j) agents (game_init agents h pool) = Inr sj
              \<and> ps ! j = payoff (g_heap sj a)
              \<and> map_of (r_allocation (last (g_log sj))) a = Some (as ! j)"
      using IH mem unfolding s by blast
    obtain x where x: "map_of (r_allocation rep) a = Some x"
      and new: "map_of (payoff_history s') (name (h a)) = Some (ps @ [payoff (g_heap s' a)])"
        "map_of (allocation_history s') (name (h a)) = Some (as @ [x])"
      using hist inj mem old by fastforce
    have "\<exists>sj. rounds_loop (Suc j) agents (game_init agents h pool) = Inr sj
              \<and> (ps @ [payoff (g_heap s' a)]) ! j = payoff (g_heap sj a)
              \<and> map_of (r_allocation (last (g_log sj))) a = Some ((as @ [x]) ! j)"
      if j: "j < Suc k" for j
    proof (cases "j < k")
      case True
      then show ?thesis
        using before len by (simp add: nth_append)
    next
      case False
      then have "j = k" using j by simp
      then show ?thesis
        using next_state log x len by (simp add: nth_append)
    qed
    then show ?thesis
      using new len by simp
  qed
  then show ?case
    using next_state by blast
qed

lemma main_first_round:
  "\<exists>s'. play_round [0, 1, 2] (game_init [0, 1, 2] main_heap (ResourcePool_init 30)) = Inr s'
     \<and> r_total_contribution (last (g_log s')) = 35970 / 229"
  by (simp add: game_init_def history_init_def play_round_def round_bids_def
      Agent_init_def ResourcePool_init_def replenish_def allocate_def bid_def
      dict_values_def dict_keys_def dict_get_def compute_shapley_value_def
      update_strategy_def round_calls_def Let_def py_div_def main_heap_def)


subsection \<open>Double precision\<close>

lemma round_half_even_nonneg: "0 \<le> y \<Longrightarrow> 0 \<le> round_half_even y"
  by (auto simp: round_half_even_def Let_def)

lemma scale_nonneg: "0 \<le> x \<Longrightarrow> 0 \<le> scale x t"
  by (simp add: scale_def)

lemma round_double_nonneg: "0 \<le> x \<Longrightarrow> fle (Finite 0) (round_double x)"
  by (simp add: round_double_def Let_def scale_nonneg round_half_even_nonneg)

lemma fle_zero_cases:
  "fle (Finite 0) a \<longleftrightarrow> a = PInf \<or> (\<exists>x. a = Finite x \<and> 0 \<le> x)"
  by (cases a) auto

lemma fmul_nonneg:
  "fle (Finite 0) a \<Longrightarrow> fle (Finite 0) b \<Longrightarrow> fmul a b = NaN \<or> fle (Finite 0) (fmul a b)"
  by (cases a; cases b) (simp_all add: round_double_nonneg signed_inf_def)

lemma fadd_nonneg:
  "fle (Finite 0) a \<Longrightarrow> fle (Finite 0) b \<Longrightarrow> fle (Finite 0) (fadd a b)"
  by (cases a; cases b) (simp_all add: round_double_nonneg)

lemma fle_refl: "a \<noteq> NaN \<Longrightarrow> fle a a"
  by (cases a) auto

lemma not_flt_fle: "a \<noteq> NaN \<Longrightarrow> b \<noteq> NaN \<Longrightarrow> \<not> flt b a \<Longrightarrow> fle a b"
  by (cases a; cases b) auto

lemma fle_not_NaN: "fle a b \<Longrightarrow> a \<noteq> NaN \<and> b \<noteq> NaN"
  by (cases a; cases b) auto

lemma bid_f64_bounds:
  assumes need: "fle (Finite 0) (resource_need_f64 a)"
    and selfish: "fle (Finite 0) (selfishness_f64 a)"
    and strat: "fle (Finite 0) (strategy_f64 a)"
    and pool: "fle (Finite 0) r"
    and ok: "fmul (resource_need_f64 a)
        (fadd (Finite 1) (fmul (selfishness_f64 a) (strategy_f64 a))) \<noteq> NaN"
  shows "bid_f64 a r =
      py_min (fmul (resource_need_f64 a)
        (fadd (Finite 1) (fmul (selfishness_f64 a) (strategy_f64 a)))) r
    \<and> fle (Finite 0) (bid_f64 a r) \<and> fle (bid_f64 a r) r"
proof -
  define m where "m = fmul (selfishness_f64 a) (strategy_f64 a)"
  define b where "b = fmul (resource_need_f64 a) (fadd (Finite 1) m)"
  have "m \<noteq> NaN"
  proof
    assume "m = NaN"
    then have "b = NaN"
      by (cases "resource_need_f64 a") (simp_all add: b_def)
    then show False
      using ok by (simp add: b_def m_def)
  qed
  then have "fle (Finite 0) m"
    using fmul_nonneg [OF selfish strat] by (simp add: m_def)
  then have "fle (Finite 0) (fadd (Finite 1) m)"
    by (simp add: fadd_nonneg)
  then have b: "fle (Finite 0) b"
    using fmul_nonneg [OF need, of "fadd (Finite 1) m"] ok by (simp add: b_def m_def)
  have eq: "bid_f64 a r = py_min b r"
    by (simp add: bid_f64_def b_def m_def)
  have nn: "b \<noteq> NaN" "r \<noteq> NaN"
    using b pool fle_not_NaN by blast+
  have "fle (Finite 0) (py_min b r)"
    using b pool by (simp add: py_min_def)
  moreover have "fle (py_min b r) r"
    using nn by (simp add: py_min_def fle_refl not_flt_fle)
  ultimately show ?thesis
    using eq by (simp add: b_def m_def)
qed

text \<open>
  The first round of the main execution in double precision: the payoffs, the allocations
  and the strategies it leaves, as the exact values of the doubles.
\<close>

lemma main_first_round_f64:
  "map_sum id (\<lambda>s. (payoff_history_f64 s, allocation_history_f64 s))
     (resource_allocation_game_f64 [0, 1, 2] main_heap_f64 (ResourcePool_init_f64 (Finite 30)) 1) =
     Inr ([(''Agent A'', [Finite (5282057527931409 / 562949953421312)]),
           (''Agent B'', [Finite (5859562484318577 / 562949953421312)]),
           (''Agent C'', [Finite (1436719647597343 / 140737488355328)])],
          [(''Agent A'', [Finite (2765583832309939 / 281474976710656)]),
           (''Agent B'', [Finite (3834942914136449 / 562949953421312)]),
           (''Agent C'', [Finite (7522388023883033 / 562949953421312)])])"
  by (simp add: resource_allocation_game_f64_def history_init_f64_def play_round_f64_def
      round_bids_f64_def Agent_init_f64_def ResourcePool_init_f64_def replenish_f64_def
      allocate_f64_def bid_f64_def dict_values_def dict_keys_def dict_get_def
      compute_shapley_value_f64_def update_strategy_f64_def main_heap_f64_def
      round_double_def exponent_of_def scale_def round_half_even_def bit_length.simps
      Let_def signed_inf_def fsub_def py_min_def py_sum_def py_fdiv_def)

section \<open>Agent\<close>

text \<open>
  C5: for every real reward, \<open>update_strategy\<close> multiplies the strategy by 1.1 when the
  reward is positive and by 0.9 otherwise (a reward of 0 takes the decreasing branch);
  every other field of the agent is left as it was.
\<close>

theorem update_strategy_spec:
  "strategy (update_strategy a reward) =
     (if reward > 0 then strategy a * (11 / 10) else strategy a * (9 / 10))
   \<and> strategy (update_strategy a 0) = strategy a * (9 / 10)
   \<and> update_strategy a reward = a\<lparr>strategy := strategy (update_strategy a reward)\<rparr>
   \<and> name (update_strategy a reward) = name a
   \<and> capability (update_strategy a reward) = capability a
   \<and> resource_need (update_strategy a reward) = resource_need a
   \<and> selfishness (update_strategy a reward) = selfishness a
   \<and> payoff (update_strategy a reward) = payoff a
   \<and> resources_allocated (update_strategy a reward) = resources_allocated a"
  by (simp add: update_strategy_def)

theorem update_strategy_spec_witness:
  "strategy (update_strategy (Agent_init ''A'' 5 10 (1 / 2)) 3) = 11 / 10
   \<and> strategy (update_strategy (Agent_init ''A'' 5 10 (1 / 2)) 0) = 9 / 10
   \<and> strategy (update_strategy (Agent_init ''A'' 5 10 (1 / 2)) (- 2)) = 9 / 10"
  using update_strategy_spec [of "Agent_init ''A'' 5 10 (1 / 2)" 3]
    update_strategy_spec [of "Agent_init ''A'' 5 10 (1 / 2)" 0]
    update_strategy_spec [of "Agent_init ''A'' 5 10 (1 / 2)" "- 2"]
  by (simp add: Agent_init_def)

text \<open>
  C6, as the code has it: for an agent with non-negative resource need, selfishness and
  strategy and a non-negative remaining-resources argument, \<open>bid\<close> returns
  \<open>min (resource_need * (1 + selfishness * strategy)) remaining\<close>. In exact arithmetic
  that value is non-negative and at most the argument; in double precision it is so
  whenever the product \<open>resource_need * (1 + selfishness * strategy)\<close> is not NaN.
  \<open>bid\<close> is a function from the agent to a number, so the agent is not changed.
\<close>

theorem bid_spec:
  "(0 \<le> resource_need a \<and> 0 \<le> selfishness a \<and> 0 \<le> strategy a \<and> 0 \<le> remaining \<longrightarrow>
      bid a remaining = min (resource_need a * (1 + selfishness a * strategy a)) remaining
      \<and> 0 \<le> bid a remaining \<and> bid a remaining \<le> remaining)
   \<and> (fle (Finite 0) (resource_need_f64 b) \<and> fle (Finite 0) (selfishness_f64 b)
        \<and> fle (Finite 0) (strategy_f64 b) \<and> fle (Finite 0) r
        \<and> fmul (resource_need_f64 b)
              (fadd (Finite 1) (fmul (selfishness_f64 b) (strategy_f64 b))) \<noteq> NaN \<longrightarrow>
      bid_f64 b r =
        py_min (fmul (resource_need_f64 b)
                  (fadd (Finite 1) (fmul (selfishness_f64 b) (strategy_f64 b)))) r
      \<and> fle (Finite 0) (bid_f64 b r) \<and> fle (bid_f64 b r) r)"
proof (rule conjI; rule impI)
  assume h: "0 \<le> resource_need a \<and> 0 \<le> selfishness a \<and> 0 \<le> strategy a \<and> 0 \<le> remaining"
  then have "0 \<le> selfishness a * strategy a"
    by simp
  then have "0 \<le> resource_need a * (1 + selfishness a * strategy a)"
    using h by simp
  then show "bid a remaining = min (resource_need a * (1 + selfishness a * strategy a)) remaining
      \<and> 0 \<le> bid a remaining \<and> bid a remaining \<le> remaining"
    using h by (simp add: bid_def)
next
  assume "fle (Finite 0) (resource_need_f64 b) \<and> fle (Finite 0) (selfishness_f64 b)
        \<and> fle (Finite 0) (strategy_f64 b) \<and> fle (Finite 0) r
        \<and> fmul (resource_need_f64 b)
              (fadd (Finite 1) (fmul (selfishness_f64 b) (strategy_f64 b))) \<noteq> NaN"
  then show "bid_f64 b r =
        py_min (fmul (resource_need_f64 b)
                  (fadd (Finite 1) (fmul (selfishness_f64 b) (strategy_f64 b)))) r
      \<and> fle (Finite 0) (bid_f64 b r) \<and> fle (bid_f64 b r) r"
    using bid_f64_bounds [of b r] by blast
qed

theorem bid_spec_witness:
  "bid (Agent_init ''A'' 5 10 (1 / 2)) 30 = 15 \<and> bid (Agent_init ''A'' 5 10 (1 / 2)) 12 = 12
   \<and> bid_f64 (Agent_init_f64 ''A'' (Finite 5) (Finite 10) (Finite (1 / 2))) (Finite 30) = Finite 15
   \<and> bid_f64 (Agent_init_f64 ''A'' (Finite 5) (Finite 10) (Finite (1 / 2))) (Finite 12) = Finite 12"
proof -
  have agent: "0 \<le> resource_need (Agent_init ''A'' 5 10 (1 / 2))
      \<and> 0 \<le> selfishness (Agent_init ''A'' 5 10 (1 / 2))
      \<and> 0 \<le> strategy (Agent_init ''A'' 5 10 (1 / 2)) \<and> (0::real) \<le> r" if "0 \<le> r" for r
    using that by (simp add: Agent_init_def)
  have product: "fmul (resource_need_f64 (Agent_init_f64 ''A'' (Finite 5) (Finite 10) (Finite (1 / 2))))
      (fadd (Finite 1)
        (fmul (selfishness_f64 (Agent_init_f64 ''A'' (Finite 5) (Finite 10) (Finite (1 / 2))))
          (strategy_f64 (Agent_init_f64 ''A'' (Finite 5) (Finite 10) (Finite (1 / 2)))))) =
      Finite 15"
    by (simp add: Agent_init_f64_def round_double_def exponent_of_def scale_def
        round_half_even_def bit_length.simps Let_def)
  have agent_f64: "fle (Finite 0) (resource_need_f64 (Agent_init_f64 ''A'' (Finite 5) (Finite 10) (Finite (1 / 2))))
      \<and> fle (Finite 0) (selfishness_f64 (Agent_init_f64 ''A'' (Finite 5) (Finite 10) (Finite (1 / 2))))
      \<and> fle (Finite 0) (strategy_f64 (Agent_init_f64 ''A'' (Finite 5) (Finite 10) (Finite (1 / 2))))"
    by (simp add: Agent_init_f64_def)
  have r30: "(0::real) \<le> 30" and r12: "(0::real) \<le> 12"
    by simp_all
  have exact: "bid (Agent_init ''A'' 5 10 (1 / 2)) 30 = 15 \<and> bid (Agent_init ''A'' 5 10 (1 / 2)) 12 = 12"
    using bid_spec [of "Agent_init ''A'' 5 10 (1 / 2)" 30, THEN conjunct1] agent [OF r30]
      bid_spec [of "Agent_init ''A'' 5 10 (1 / 2)" 12, THEN conjunct1] agent [OF r12]
    by (simp add: Agent_init_def)
  have doubles: "bid_f64 (Agent_init_f64 ''A'' (Finite 5) (Finite 10) (Finite (1 / 2))) (Finite 30) = Finite 15
      \<and> bid_f64 (Agent_init_f64 ''A'' (Finite 5) (Finite 10) (Finite (1 / 2))) (Finite 12) = Finite 12"
    using bid_spec [of _ _ "Agent_init_f64 ''A'' (Finite 5) (Finite 10) (Finite (1 / 2))"
        "Finite 30", THEN conjunct2]
      bid_spec [of _ _ "Agent_init_f64 ''A'' (Finite 5) (Finite 10) (Finite (1 / 2))"
        "Finite 12", THEN conjunct2]
      agent_f64
    by (simp add: product py_min_def)
  show ?thesis
    using exact doubles by simp
qed

text \<open>
  In double precision the claim C6 fails, since \<open>0 * inf\<close> is NaN: for an agent with
  need 0 whose product of selfishness and strategy overflows, and for an agent with
  selfishness 0 whose strategy has grown to infinity, \<open>bid\<close> returns NaN, which is neither
  at least 0 nor at most the remaining resources.
\<close>

theorem bid_nan_counterexample:
  "fle (Finite 0) (Finite 0) \<and> fle (Finite 0) (Finite (2 ^ 600)) \<and> fle (Finite 0) (Finite 30)
   \<and> bid_f64 ((Agent_init_f64 ''Agent A'' (Finite 5) (Finite 0) (Finite (2 ^ 600)))
                 \<lparr>strategy_f64 := Finite (2 ^ 600)\<rparr>) (Finite 30) = NaN
   \<and> fle (Finite 0) (Finite 10) \<and> fle (Finite 0) PInf
   \<and> bid_f64 ((Agent_init_f64 ''Agent A'' (Finite 5) (Finite 10) (Finite 0))
                 \<lparr>strategy_f64 := PInf\<rparr>) (Finite 30) = NaN
   \<and> \<not> fle (Finite 0) NaN \<and> \<not> fle NaN (Finite 30)"
  by (simp add: bid_f64_def Agent_init_f64_def round_double_def signed_inf_def py_min_def)

text \<open>
  C7: a new agent's strategy is 1; after any sequence of \<open>update_strategy\<close> calls,
  whatever the rewards, it is strictly positive; and a game of any number of rounds,
  whose only writes to a strategy are such calls, leaves every positive strategy
  positive (in exact arithmetic).
\<close>

theorem strategy_positive:
  "strategy (Agent_init nm cap need selfish) = 1
   \<and> 0 < strategy (foldl update_strategy (Agent_init nm cap need selfish) rewards)
   \<and> (\<exists>s. resource_allocation_game agents h resource_pool (int k) = Inr s
         \<and> (\<forall>a. 0 < strategy (h a) \<longrightarrow> 0 < strategy (g_heap s a)))"
proof -
  have pos: "0 < strategy a \<Longrightarrow> 0 < strategy (foldl update_strategy a rewards)" for a
    by (induction rewards arbitrary: a) (simp_all add: update_strategy_def)
  have updates: "0 < strategy (foldl update_strategy (Agent_init nm cap need selfish) rewards)"
    using pos [of "Agent_init nm cap need selfish"] by (simp add: Agent_init_def)
  obtain s where "rounds_loop k agents (game_init agents h resource_pool) = Inr s"
    and "\<forall>a. 0 < strategy (h a) \<longrightarrow> 0 < strategy (g_heap s a)"
    using game_run [of k agents h resource_pool] by blast
  then have "\<exists>s. resource_allocation_game agents h resource_pool (int k) = Inr s
      \<and> (\<forall>a. 0 < strategy (h a) \<longrightarrow> 0 < strategy (g_heap s a))"
    by (simp add: game_of_rounds)
  then show ?thesis
    using updates by (simp add: Agent_init_def)
qed

theorem strategy_positive_witness:
  "\<exists>s. resource_allocation_game [0, 1, 2] main_heap (ResourcePool_init 30) 10 = Inr s
     \<and> 0 < strategy (g_heap s 0) \<and> 0 < strategy (g_heap s 1) \<and> 0 < strategy (g_heap s 2)"
proof -
  obtain s where game: "resource_allocation_game [0, 1, 2] main_heap (ResourcePool_init 30)
        (int 10) = Inr s"
    and keep: "\<forall>a. 0 < strategy (main_heap a) \<longrightarrow> 0 < strategy (g_heap s a)"
    using strategy_positive [of _ _ _ _ _ "[0, 1, 2]" main_heap "ResourcePool_init 30" 10]
    by blast
  have "0 < strategy (main_heap a)" for a
    by (simp add: main_heap_def Agent_init_def)
  then have "0 < strategy (g_heap s a)" for a
    using keep by simp
  then show ?thesis
    using game by simp
qed

section \<open>ResourcePool\<close>

text \<open>
  C1: for every bid map and every pool whose remaining resources are not negative, as
  the pools of the data model are, \<open>allocate\<close> returns the bid map unchanged when the
  sum of the bids is at most the remaining resources, and otherwise gives each agent
  \<open>bid / sum * remaining\<close>, values that add up to the remaining resources seen at entry.
  The same holds for a pool with negative remaining resources as long as the bids do not
  sum to 0. The bids need not be non-negative.
\<close>

theorem allocate_piecewise:
  assumes "0 \<le> remaining_resources pool \<or> sum_list (dict_values bids) \<noteq> 0"
  shows "\<exists>allocation pool'. allocate pool bids = Inr (allocation, pool')
    \<and> (sum_list (dict_values bids) \<le> remaining_resources pool \<longrightarrow> allocation = bids)
    \<and> (remaining_resources pool < sum_list (dict_values bids) \<longrightarrow>
         allocation =
           map (\<lambda>(agent, b).
                  (agent, b / sum_list (dict_values bids) * remaining_resources pool)) bids
         \<and> sum_list (dict_values allocation) = remaining_resources pool)"
proof (cases "sum_list (dict_values bids) \<le> remaining_resources pool")
  case True
  then show ?thesis by (simp add: allocate_def)
next
  case False
  then have "sum_list (dict_values bids) \<noteq> 0"
    using assms by auto
  then show ?thesis
    using False by (simp add: allocate_def ration_eq sum_rationed_normal)
qed

theorem allocate_piecewise_witness:
  "(\<exists>pool'. allocate (ResourcePool_init 30) [(''A'', 15), (''B'', 10), (''C'', 25)] =
      Inr ([(''A'', 9), (''B'', 6), (''C'', 15)], pool'))
   \<and> (\<exists>pool'. allocate (ResourcePool_init 30) [(''A'', 15), (''B'', 10)] =
      Inr ([(''A'', 15), (''B'', 10)], pool'))
   \<and> (\<exists>pool'. allocate (ResourcePool_init (- 1)) [(''A'', 2), (''B'', 3)] =
      Inr ([(''A'', - 2 / 5), (''B'', - 3 / 5)], pool'))"
proof -
  have pool: "0 \<le> remaining_resources (ResourcePool_init 30) \<or> sum_list (dict_values bids) \<noteq> 0"
    for bids :: "(string, real) dict"
    by (simp add: ResourcePool_init_def)
  have bids: "0 \<le> remaining_resources (ResourcePool_init (- 1))
      \<or> sum_list (dict_values [(''A'', 2::real), (''B'', 3)]) \<noteq> 0"
    by (simp add: dict_values_def)
  show ?thesis
    using allocate_piecewise [OF pool, of "[(''A'', 15), (''B'', 10), (''C'', 25)]"]
      allocate_piecewise [OF pool, of "[(''A'', 15), (''B'', 10)]"]
      allocate_piecewise [OF bids]
    by (auto simp: ResourcePool_init_def dict_values_def)
qed

text \<open>
  The case left out, a pool with negative remaining resources and bids that sum to 0,
  is no state of the data model, where the remaining resources stay between 0 and a
  positive total; there the shortfall branch divides the first bid by 0.
\<close>

lemma allocate_below_zero_raises:
  "allocate (ResourcePool_init (- 1)) [(''A'', 0)] = Inl ZeroDivisionError"
  by (simp add: ResourcePool_init_def allocate_def py_div_def dict_values_def)

text \<open>
  C2: when every bid is zero and the remaining resources are not negative, \<open>allocate\<close>
  returns the all-zero allocation over the same agents and leaves the pool as it was;
  it does not raise \<open>ZeroDivisionError\<close>.
\<close>

theorem allocate_zero_bids:
  assumes "\<forall>(agent, b) \<in> set bids. b = 0" and "0 \<le> remaining_resources pool"
  shows "allocate pool bids = Inr (map (\<lambda>(agent, b). (agent, 0)) bids, pool)"
proof -
  have same: "map (\<lambda>(agent, b). (agent, 0)) bids = bids"
    using assms(1) by (induction bids) auto
  have "sum_list (dict_values bids) = 0"
    using assms(1) by (induction bids) (auto simp: dict_values_def)
  then show ?thesis
    using assms(2) same by (simp add: allocate_def)
qed

theorem allocate_zero_bids_witness:
  "allocate (ResourcePool_init 30) [(''A'', 0), (''B'', 0)] =
     Inr ([(''A'', 0), (''B'', 0)], ResourcePool_init 30)"
proof -
  have zero: "\<forall>(agent, b) \<in> set [(''A'', 0::real), (''B'', 0)]. b = 0"
    by simp
  have pool: "0 \<le> remaining_resources (ResourcePool_init 30)"
    by (simp add: ResourcePool_init_def)
  show ?thesis
    using allocate_zero_bids [OF zero pool] by simp
qed

text \<open>
  C3: whenever \<open>allocate\<close> returns, the remaining resources have gone down by the sum of
  the returned allocation and the total is untouched; and for a pool with a positive
  total and non-negative bids, \<open>replenish\<close> followed by \<open>allocate\<close> returns and leaves
  \<open>0 \<le> remaining_resources \<le> total_resources\<close>.
\<close>

theorem allocate_decrement_invariant:
  "(allocate pool bids = Inr (allocation, pool') \<longrightarrow>
      remaining_resources pool' =
        remaining_resources pool - sum_list (dict_values allocation)
      \<and> total_resources pool' = total_resources pool)
   \<and> (0 < total_resources pool \<and> (\<forall>(agent, b) \<in> set bids. 0 \<le> b) \<longrightarrow>
        (\<exists>al p. allocate (replenish pool) bids = Inr (al, p)
           \<and> remaining_resources p = total_resources pool - sum_list (dict_values al)
           \<and> total_resources p = total_resources pool
           \<and> 0 \<le> remaining_resources p
           \<and> remaining_resources p \<le> total_resources p))"
proof (intro conjI impI)
  assume "allocate pool bids = Inr (allocation, pool')"
  then show "remaining_resources pool' =
      remaining_resources pool - sum_list (dict_values allocation)"
    by (auto simp: allocate_def Let_def split: sum.splits)
next
  assume "allocate pool bids = Inr (allocation, pool')"
  then show "total_resources pool' = total_resources pool"
    by (auto simp: allocate_def Let_def split: sum.splits)
next
  assume h: "0 < total_resources pool \<and> (\<forall>(agent, b) \<in> set bids. 0 \<le> b)"
  then have "\<forall>x \<in> set (dict_values bids). 0 \<le> x"
    by (auto simp: dict_values_def)
  then have nonneg: "0 \<le> sum_list (dict_values bids)"
    by (rule sum_list_real_nonneg)
  show "\<exists>al p. allocate (replenish pool) bids = Inr (al, p)
      \<and> remaining_resources p = total_resources pool - sum_list (dict_values al)
      \<and> total_resources p = total_resources pool
      \<and> 0 \<le> remaining_resources p
      \<and> remaining_resources p \<le> total_resources p"
  proof (cases "sum_list (dict_values bids) \<le> total_resources pool")
    case True
    then show ?thesis
      using nonneg by (simp add: allocate_def replenish_def)
  next
    case False
    then have "sum_list (dict_values bids) \<noteq> 0"
      using h by auto
    then show ?thesis
      using False h by (simp add: allocate_def replenish_def ration_eq sum_rationed_normal)
  qed
qed

theorem allocate_decrement_invariant_witness:
  "\<exists>al p. allocate (replenish \<lparr>total_resources = 30, remaining_resources = 7\<rparr>)
         [(''A'', 15), (''B'', 10), (''C'', 25)] = Inr (al, p)
     \<and> remaining_resources p = 30 - sum_list (dict_values al)
     \<and> 0 \<le> remaining_resources p \<and> remaining_resources p \<le> 30"
proof -
  have "0 < total_resources \<lparr>total_resources = 30, remaining_resources = 7\<rparr>
      \<and> (\<forall>(agent, b) \<in> set [(''A'', 15::real), (''B'', 10), (''C'', 25)]. 0 \<le> b)"
    by simp
  then show ?thesis
    using allocate_decrement_invariant
      [of "\<lparr>total_resources = 30, remaining_resources = 7\<rparr>"
          "[(''A'', 15), (''B'', 10), (''C'', 25)]", THEN conjunct2]
    by auto
qed

section \<open>compute_shapley_value\<close>

text \<open>
  C4: for non-negative contributions and \<open>total_contribution\<close> equal to their sum,
  \<open>compute_shapley_value\<close> returns \<open>contribution / total_contribution\<close> per agent when the
  total is positive and 0 for every agent otherwise; every share lies between 0 and 1,
  the shares sum to 1 when the total is positive, and all are zero when it is not.
\<close>

theorem compute_shapley_value_spec:
  assumes "\<forall>(agent, c) \<in> set contributions. 0 \<le> c"
    and "total_contribution = sum_list (dict_values contributions)"
  shows "(0 < total_contribution \<longrightarrow>
            compute_shapley_value contributions total_contribution =
              map (\<lambda>(agent, c). (agent, c / total_contribution)) contributions
            \<and> sum_list (dict_values
                 (compute_shapley_value contributions total_contribution)) = 1)
    \<and> (\<not> 0 < total_contribution \<longrightarrow>
            compute_shapley_value contributions total_contribution =
              map (\<lambda>(agent, c). (agent, 0)) contributions)
    \<and> (\<forall>(agent, share) \<in> set (compute_shapley_value contributions total_contribution).
            0 \<le> share \<and> share \<le> 1)"
proof (intro conjI impI)
  assume pos: "0 < total_contribution"
  show eq: "compute_shapley_value contributions total_contribution =
      map (\<lambda>(agent, c). (agent, c / total_contribution)) contributions"
    using pos by (simp add: compute_shapley_value_def)
  have "sum_list (dict_values (compute_shapley_value contributions total_contribution)) =
      sum_list (dict_values contributions) / total_contribution"
    unfolding eq by (rule sum_shares)
  then show "sum_list (dict_values (compute_shapley_value contributions total_contribution)) = 1"
    using pos assms(2) by simp
next
  assume "\<not> 0 < total_contribution"
  then show "compute_shapley_value contributions total_contribution =
      map (\<lambda>(agent, c). (agent, 0)) contributions"
    by (simp add: compute_shapley_value_def)
next
  have vals: "\<forall>x \<in> set (dict_values contributions). 0 \<le> x"
    using assms(1) by (auto simp: dict_values_def)
  show "\<forall>(agent, share) \<in> set (compute_shapley_value contributions total_contribution).
      0 \<le> share \<and> share \<le> 1"
  proof (clarify)
    fix agent share
    assume "(agent, share) \<in> set (compute_shapley_value contributions total_contribution)"
    then obtain c where c: "(agent, c) \<in> set contributions"
      and share: "share = (if 0 < total_contribution then c / total_contribution else 0)"
      by (auto simp: compute_shapley_value_def)
    have "0 \<le> c"
      using assms(1) c by auto
    moreover have "c \<le> total_contribution"
      unfolding assms(2)
      by (rule member_le_sum_list_real [OF vals]) (use c in \<open>force simp: dict_values_def\<close>)
    ultimately show "0 \<le> share \<and> share \<le> 1"
      by (simp add: share)
  qed
qed

theorem compute_shapley_value_spec_witness:
  "compute_shapley_value [(''A'', 1), (''B'', 3)] 4 = [(''A'', 1 / 4), (''B'', 3 / 4)]
   \<and> sum_list (dict_values (compute_shapley_value [(''A'', 1), (''B'', 3)] 4)) = 1
   \<and> compute_shapley_value [(''A'', 0), (''B'', 0)] 0 = [(''A'', 0), (''B'', 0)]"
proof -
  have c1: "\<forall>(agent, c) \<in> set [(''A'', 1::real), (''B'', 3)]. 0 \<le> c"
    and t1: "(4::real) = sum_list (dict_values [(''A'', 1), (''B'', 3)])"
    by (simp_all add: dict_values_def)
  have c0: "\<forall>(agent, c) \<in> set [(''A'', 0::real), (''B'', 0)]. 0 \<le> c"
    and t0: "(0::real) = sum_list (dict_values [(''A'', 0), (''B'', 0)])"
    by (simp_all add: dict_values_def)
  show ?thesis
    using compute_shapley_value_spec [OF c1 t1] compute_shapley_value_spec [OF c0 t0]
    by (simp add: dict_values_def)
qed

section \<open>resource_allocation_game\<close>

text \<open>
  The game after \<open>k\<close> rounds is \<open>resource_allocation_game agents h resource_pool (int k)\<close>;
  the loop goes through these states one after the other, so a statement about the step
  from \<open>int k\<close> to \<open>int k + 1\<close> rounds, for every \<open>k\<close>, is a statement about every round of
  every run. The last entry of \<open>g_log\<close> holds the local variables of the round just played.
\<close>




text \<open>
  C9: for every round count \<open>rounds\<close> that is not negative the game returns, and both
  histories have exactly the agents' names as keys. When the agents' names are pairwise
  distinct, as the data model has them, each name is mapped to a sequence of \<open>rounds\<close>
  values of which the \<open>k\<close>-th is the agent's payoff at the end of round \<open>k + 1\<close>,
  respectively its allocation in round \<open>k + 1\<close>. With \<open>rounds = 0\<close>, whatever the
  names, every sequence is empty and no call has been made, to \<open>bid\<close> and \<open>allocate\<close>
  in particular.
\<close>

theorem game_histories:
  assumes "0 \<le> rounds"
  shows "\<exists>s. resource_allocation_game agents h resource_pool rounds = Inr s
    \<and> distinct (dict_keys (payoff_history s))
    \<and> set (dict_keys (payoff_history s)) = (\<lambda>a. name (h a)) ` set agents
    \<and> distinct (dict_keys (allocation_history s))
    \<and> set (dict_keys (allocation_history s)) = (\<lambda>a. name (h a)) ` set agents
    \<and> (inj_on (\<lambda>a. name (h a)) (set agents) \<longrightarrow>
         (\<forall>a \<in> set agents. \<exists>ps as.
            map_of (payoff_history s) (name (h a)) = Some ps
          \<and> map_of (allocation_history s) (name (h a)) = Some as
          \<and> int (length ps) = rounds \<and> int (length as) = rounds
          \<and> (\<forall>k<length ps. \<exists>sk.
                resource_allocation_game agents h resource_pool (int k + 1) = Inr sk
              \<and> ps ! k = payoff (g_heap sk a)
              \<and> map_of (r_allocation (last (g_log sk))) a = Some (as ! k))))
    \<and> (rounds = 0 \<longrightarrow> g_calls s = []
          \<and> (\<forall>(n, l) \<in> set (payoff_history s). l = [])
          \<and> (\<forall>(n, l) \<in> set (allocation_history s). l = []))"
proof -
  define k where "k = nat rounds"
  have rounds: "rounds = int k"
    using assms by (simp add: k_def)
  obtain s where run: "rounds_loop k agents (game_init agents h resource_pool) = Inr s"
    and keys: "dict_keys (payoff_history s) = dict_keys (history_init agents h)"
      "dict_keys (allocation_history s) = dict_keys (history_init agents h)"
    using game_run [of k agents h resource_pool] by blast
  have game: "resource_allocation_game agents h resource_pool rounds = Inr s"
    using run by (simp add: rounds game_of_rounds)
  have per_agent: "\<forall>a \<in> set agents. \<exists>ps as.
          map_of (payoff_history s) (name (h a)) = Some ps
        \<and> map_of (allocation_history s) (name (h a)) = Some as
        \<and> int (length ps) = rounds \<and> int (length as) = rounds
        \<and> (\<forall>k<length ps. \<exists>sk.
              resource_allocation_game agents h resource_pool (int k + 1) = Inr sk
            \<and> ps ! k = payoff (g_heap sk a)
            \<and> map_of (r_allocation (last (g_log sk))) a = Some (as ! k))"
    if inj: "inj_on (\<lambda>a. name (h a)) (set agents)"
  proof
    fix a
    assume mem: "a \<in> set agents"
    obtain s0 where run0: "rounds_loop k agents (game_init agents h resource_pool) = Inr s0"
      and hist: "\<forall>a \<in> set agents. \<exists>ps as.
          map_of (payoff_history s0) (name (h a)) = Some ps
        \<and> map_of (allocation_history s0) (name (h a)) = Some as
        \<and> length ps = k \<and> length as = k
        \<and> (\<forall>j<k. \<exists>sj. rounds_loop (Suc j) agents (game_init agents h resource_pool) = Inr sj
              \<and> ps ! j = payoff (g_heap sj a)
              \<and> map_of (r_allocation (last (g_log sj))) a = Some (as ! j))"
      using game_histories_rounds [OF inj, of k resource_pool] by (elim exE conjE)
    have "s0 = s"
      using run run0 by simp
    then obtain ps as where "map_of (payoff_history s) (name (h a)) = Some ps"
      "map_of (allocation_history s) (name (h a)) = Some as"
      "length ps = k" "length as = k"
      "\<forall>j<k. \<exists>sj. rounds_loop (Suc j) agents (game_init agents h resource_pool) = Inr sj
              \<and> ps ! j = payoff (g_heap sj a)
              \<and> map_of (r_allocation (last (g_log sj))) a = Some (as ! j)"
      using hist mem by blast
    then show "\<exists>ps as.
          map_of (payoff_history s) (name (h a)) = Some ps
        \<and> map_of (allocation_history s) (name (h a)) = Some as
        \<and> int (length ps) = rounds \<and> int (length as) = rounds
        \<and> (\<forall>k<length ps. \<exists>sk.
              resource_allocation_game agents h resource_pool (int k + 1) = Inr sk
            \<and> ps ! k = payoff (g_heap sk a)
            \<and> map_of (r_allocation (last (g_log sk))) a = Some (as ! k))"
      by (simp add: rounds game_of_rounds_Suc)
  qed
  have none: "rounds = 0 \<longrightarrow> g_calls s = []
          \<and> (\<forall>(n, l) \<in> set (payoff_history s). l = [])
          \<and> (\<forall>(n, l) \<in> set (allocation_history s). l = [])"
  proof
    assume "rounds = 0"
    then have "s = game_init agents h resource_pool"
      using run by (simp add: k_def)
    then show "g_calls s = []
          \<and> (\<forall>(n, l) \<in> set (payoff_history s). l = [])
          \<and> (\<forall>(n, l) \<in> set (allocation_history s). l = [])"
      using history_init_values [of _ _ agents h] by (auto simp: game_init_def)
  qed
  have keys_ok: "distinct (dict_keys (payoff_history s))"
    "set (dict_keys (payoff_history s)) = (\<lambda>a. name (h a)) ` set agents"
    "distinct (dict_keys (allocation_history s))"
    "set (dict_keys (allocation_history s)) = (\<lambda>a. name (h a)) ` set agents"
    by (simp_all add: keys history_init_distinct history_init_keys)
  from game keys_ok per_agent none show ?thesis
    by blast
qed

theorem game_histories_witness:
  "inj_on (\<lambda>a. name (main_heap a)) (set [0, 1, 2])
   \<and> (\<exists>s ps as. resource_allocation_game [0, 1, 2] main_heap (ResourcePool_init 30) 10 = Inr s
         \<and> map_of (payoff_history s) ''Agent A'' = Some ps
         \<and> map_of (allocation_history s) ''Agent A'' = Some as
         \<and> length ps = 10 \<and> length as = 10)"
proof -
  have inj: "inj_on (\<lambda>a. name (main_heap a)) (set [0, 1, 2])"
    by (simp add: inj_on_def main_heap_def Agent_init_def)
  have rounds: "(0::int) \<le> 10"
    by simp
  from game_histories [OF rounds, of "[0, 1, 2]" main_heap "ResourcePool_init 30"]
  obtain s where game: "resource_allocation_game [0, 1, 2] main_heap (ResourcePool_init 30) 10 = Inr s"
    and each: "inj_on (\<lambda>a. name (main_heap a)) (set [0, 1, 2]) \<longrightarrow>
       (\<forall>a \<in> set [0, 1, 2]. \<exists>ps as.
          map_of (payoff_history s) (name (main_heap a)) = Some ps
        \<and> map_of (allocation_history s) (name (main_heap a)) = Some as
        \<and> int (length ps) = 10 \<and> int (length as) = 10
        \<and> (\<forall>k<length ps. \<exists>sk.
              resource_allocation_game [0, 1, 2] main_heap (ResourcePool_init 30) (int k + 1) = Inr sk
            \<and> ps ! k = payoff (g_heap sk a)
            \<and> map_of (r_allocation (last (g_log sk))) a = Some (as ! k)))"
    by (elim exE conjE)
  have "0 \<in> set [0, 1, 2::nat]"
    by simp
  with each inj obtain ps as where "map_of (payoff_history s) (name (main_heap 0)) = Some ps"
    "map_of (allocation_history s) (name (main_heap 0)) = Some as"
    "int (length ps) = 10" "int (length as) = 10"
    by (elim impE ballE exE conjE) auto
  moreover have "name (main_heap 0) = ''Agent A''"
    by (simp add: main_heap_def Agent_init_def)
  ultimately have "map_of (payoff_history s) ''Agent A'' = Some ps
        \<and> map_of (allocation_history s) ''Agent A'' = Some as
        \<and> length ps = 10 \<and> length as = 10"
    by simp
  then show ?thesis
    using inj game by blast
qed

text \<open>
  Distinct names are needed for the sequences: let the second agent of the main execution
  be called \<open>Agent A\<close> like the first, which the data model rules out. The two agents
  share one entry of each history, and a single round appends two values to it.
\<close>

lemma game_shared_name_merges:
  "map_sum id payoff_history
     (resource_allocation_game [0, 1] (main_heap(1 := Agent_init ''Agent A'' 8 8 (3 / 10)))
        (ResourcePool_init 30) 1) =
     Inr [(''Agent A'', [11250 / 791, 12480 / 791])]
   \<and> map_sum id allocation_history
     (resource_allocation_game [0, 1] (main_heap(1 := Agent_init ''Agent A'' 8 8 (3 / 10)))
        (ResourcePool_init 30) 1) =
     Inr [(''Agent A'', [15, 52 / 5])]"
  by (simp add: resource_allocation_game_def game_init_def history_init_def play_round_def
      round_bids_def Agent_init_def ResourcePool_init_def replenish_def allocate_def bid_def
      dict_values_def dict_keys_def dict_get_def compute_shapley_value_def
      update_strategy_def round_calls_def Let_def main_heap_def)

text \<open>
  C10: in every round the rewards add up to the pool's total resources when the round's
  total contribution is positive, so that the payoffs of the agents, added up over the
  distinct agents of the list, grow by exactly that total; when the total contribution
  is zero the sum of the payoffs does not change.
\<close>

theorem round_rewards_sum:
  "\<exists>s s' rep. resource_allocation_game agents h resource_pool (int k) = Inr s
     \<and> resource_allocation_game agents h resource_pool (int k + 1) = Inr s'
     \<and> play_round agents s = Inr s'
     \<and> g_log s' = g_log s @ [rep]
     \<and> (0 < r_total_contribution rep \<longrightarrow>
           sum_list (dict_values (r_rewards rep)) = total_resources resource_pool
         \<and> (\<Sum>a\<leftarrow>remdups agents. payoff (g_heap s' a)) =
             (\<Sum>a\<leftarrow>remdups agents. payoff (g_heap s a)) + total_resources resource_pool)
     \<and> (r_total_contribution rep = 0 \<longrightarrow>
           (\<Sum>a\<leftarrow>remdups agents. payoff (g_heap s' a)) =
             (\<Sum>a\<leftarrow>remdups agents. payoff (g_heap s a)))"
proof -
  obtain s s' rep where run: "rounds_loop k agents (game_init agents h resource_pool) = Inr s"
    and next_state: "rounds_loop (Suc k) agents (game_init agents h resource_pool) = Inr s'"
    and step: "play_round agents s = Inr s'"
    and log: "g_log s' = g_log s @ [rep]"
    and cs: "r_contributions rep =
         map (\<lambda>(a, x). (a, capability (h a) * x)) (r_allocation rep)"
    and tc: "r_total_contribution rep = sum_list (dict_values (r_contributions rep))"
    and svs: "r_shapley_values rep =
         compute_shapley_value (r_contributions rep) (r_total_contribution rep)"
    and rws: "r_rewards rep =
         map (\<lambda>(a, sv). (a, sv * total_resources resource_pool)) (r_shapley_values rep)"
    and dist: "distinct (dict_keys (r_rewards rep))"
    and keys: "set (dict_keys (r_rewards rep)) = set agents"
    and pay: "\<forall>a. payoff (g_heap s' a) =
           payoff (g_heap s a)
             + (case map_of (r_rewards rep) a of None \<Rightarrow> 0 | Some reward \<Rightarrow> reward)"
    using game_round [of k agents h resource_pool] by blast
  have total: "sum_list (dict_values (r_rewards rep)) =
      (if 0 < r_total_contribution rep then total_resources resource_pool else 0)"
    using cs tc svs rws by (rule round_reward_total)
  have agg: "(\<Sum>a\<leftarrow>remdups agents. payoff (g_heap s' a)) =
      (\<Sum>a\<leftarrow>remdups agents. payoff (g_heap s a)) + sum_list (dict_values (r_rewards rep))"
    using dist keys pay by (rule aggregate_step)
  have pos: "0 < r_total_contribution rep \<longrightarrow>
           sum_list (dict_values (r_rewards rep)) = total_resources resource_pool
         \<and> (\<Sum>a\<leftarrow>remdups agents. payoff (g_heap s' a)) =
             (\<Sum>a\<leftarrow>remdups agents. payoff (g_heap s a)) + total_resources resource_pool"
    using total agg by simp
  have zero: "r_total_contribution rep = 0 \<longrightarrow>
           (\<Sum>a\<leftarrow>remdups agents. payoff (g_heap s' a)) =
             (\<Sum>a\<leftarrow>remdups agents. payoff (g_heap s a))"
    using total agg by simp
  have g1: "resource_allocation_game agents h resource_pool (int k) = Inr s"
    using run by (simp add: game_of_rounds)
  have g2: "resource_allocation_game agents h resource_pool (int k + 1) = Inr s'"
    using next_state by (simp only: game_of_rounds_Suc)
  from g1 g2 step log pos zero show ?thesis by blast
qed

theorem round_rewards_sum_witness:
  "\<exists>s'. resource_allocation_game [0, 1, 2] main_heap (ResourcePool_init 30) 1 = Inr s'
     \<and> payoff (g_heap s' 0) + payoff (g_heap s' 1) + payoff (g_heap s' 2) = 30"
proof -
  obtain s s' rep
    where g0: "resource_allocation_game [0, 1, 2] main_heap (ResourcePool_init 30) (int 0) = Inr s"
    and g1: "resource_allocation_game [0, 1, 2] main_heap (ResourcePool_init 30) (int 0 + 1) = Inr s'"
    and step: "play_round [0, 1, 2] s = Inr s'"
    and log: "g_log s' = g_log s @ [rep]"
    and pos: "0 < r_total_contribution rep \<longrightarrow>
           sum_list (dict_values (r_rewards rep)) = total_resources (ResourcePool_init 30)
         \<and> (\<Sum>a\<leftarrow>remdups [0, 1, 2]. payoff (g_heap s' a)) =
             (\<Sum>a\<leftarrow>remdups [0, 1, 2]. payoff (g_heap s a)) + total_resources (ResourcePool_init 30)"
    using round_rewards_sum [of "[0, 1, 2]" main_heap "ResourcePool_init 30" 0] by blast
  have s: "s = game_init [0, 1, 2] main_heap (ResourcePool_init 30)"
    using g0 by (simp add: resource_allocation_game_def)
  have "r_total_contribution (last (g_log s')) = 35970 / 229"
    using main_first_round step by (simp add: s)
  then have "0 < r_total_contribution rep"
    by (simp add: log)
  then have "(\<Sum>a\<leftarrow>remdups [0, 1, 2]. payoff (g_heap s' a)) =
      (\<Sum>a\<leftarrow>remdups [0, 1, 2]. payoff (g_heap s a)) + total_resources (ResourcePool_init 30)"
    using pos by simp
  then have "payoff (g_heap s' 0) + payoff (g_heap s' 1) + payoff (g_heap s' 2) = 30"
    by (simp add: s game_init_def main_heap_def Agent_init_def ResourcePool_init_def)
  then show ?thesis
    using g1 by simp
qed

end
